theory Spec2Isabelle
  imports Complex_Main "HOL-Library.Word"
begin

section \<open>Python values, strings and bytes\<close>

text \<open>
  A Python \<open>str\<close> is a sequence of Unicode code points and a \<open>bytes\<close> object a
  sequence of octets. String constants of the program are written with \<open>lit\<close>
  (code points) and \<open>blit\<close> (octets).
\<close>

type_synonym pystr = "nat list"
type_synonym byte = "8 word"
type_synonym pybytes = "byte list"

definition lit :: "string \<Rightarrow> pystr" where
  "lit s = map of_char s"

definition blit :: "string \<Rightarrow> pybytes" where
  "blit s = map of_char s"

text \<open>
  Values that cross the JSON boundary (RPC results, HTTP bodies). Python floats are
  modelled as exact rationals: no rounding, no underflow, no NaN, no infinity, and
  \<open>float\<close> of an integer beyond the range of a double does not fail. Sums and
  products of floats are therefore exact here where the program rounds. A dict is an
  association list in insertion order; a lookup finds the first pair with the key.
\<close>

datatype pyval =
    PNone
  | PBool bool
  | PInt int
  | PFloat rat
  | PStr pystr
  | PList "pyval list"
  | PDict "(pystr \<times> pyval) list"

datatype exn =
    RequestException
  | RPCError pyval
  | RuntimeError pystr
  | ValueError
  | KeyError
  | TypeError
  | AttributeError
  | IndexError
  | UnicodeEncodeError
  | OtherError

text \<open>Truth value testing, as \<open>if x:\<close> does it.\<close>

fun truthy :: "pyval \<Rightarrow> bool" where
  "truthy PNone = False"
| "truthy (PBool b) = b"
| "truthy (PInt i) = (i \<noteq> 0)"
| "truthy (PFloat f) = (f \<noteq> 0)"
| "truthy (PStr s) = (s \<noteq> [])"
| "truthy (PList xs) = (xs \<noteq> [])"
| "truthy (PDict kvs) = (kvs \<noteq> [])"

text \<open>\<open>x.get(key)\<close>: AttributeError unless \<open>x\<close> is a dict, None for a missing key.\<close>

definition py_get :: "pyval \<Rightarrow> pystr \<Rightarrow> exn + pyval" where
  "py_get x k =
     (case x of
        PDict kvs \<Rightarrow> (case map_of kvs k of None \<Rightarrow> Inr PNone | Some v \<Rightarrow> Inr v)
      | _ \<Rightarrow> Inl AttributeError)"

text \<open>\<open>x.get(key, default)\<close>.\<close>

definition py_get_default :: "pyval \<Rightarrow> pystr \<Rightarrow> pyval \<Rightarrow> exn + pyval" where
  "py_get_default x k d =
     (case x of
        PDict kvs \<Rightarrow> (case map_of kvs k of None \<Rightarrow> Inr d | Some v \<Rightarrow> Inr v)
      | _ \<Rightarrow> Inl AttributeError)"

section \<open>Inscription payload (core/inscription.py, MintEngine.mint)\<close>

subsection \<open>\<open>str(int)\<close>\<close>

fun digits :: "nat \<Rightarrow> pystr" where
  "digits n = (if n < 10 then [48 + n] else digits (n div 10) @ [48 + n mod 10])"

declare digits.simps [simp del]

definition str_int :: "int \<Rightarrow> pystr" where
  "str_int i = (if i < 0 then 45 # digits (nat (- i)) else digits (nat i))"

subsection \<open>\<open>json.dumps\<close> of a dict of strings, \<open>separators=(",", ":")\<close>\<close>

text \<open>
  The standard encoder with \<open>ensure_ascii\<close> (the default): backslash and the double quote
  are escaped, printable ASCII is copied, the control characters with a short escape use
  it, and every other code point becomes \<open>\uXXXX\<close>, as a surrogate pair above the
  basic plane.
\<close>

definition hex_digit :: "nat \<Rightarrow> nat" where
  "hex_digit d = (if d < 10 then 48 + d else 87 + d)"

definition u_escape :: "nat \<Rightarrow> pystr" where
  "u_escape n =
     [92, 117, hex_digit (n div 4096 mod 16), hex_digit (n div 256 mod 16),
      hex_digit (n div 16 mod 16), hex_digit (n mod 16)]"

definition json_escape_char :: "nat \<Rightarrow> pystr" where
  "json_escape_char c =
     (if c \<noteq> 92 \<and> c \<noteq> 34 \<and> 32 \<le> c \<and> c \<le> 126 then [c]
      else if c = 92 then [92, 92]
      else if c = 34 then [92, 34]
      else if c = 8 then [92, 98]
      else if c = 12 then [92, 102]
      else if c = 10 then [92, 110]
      else if c = 13 then [92, 114]
      else if c = 9 then [92, 116]
      else if c < 65536 then u_escape c
      else u_escape (55296 + ((c - 65536) div 1024) mod 1024)
           @ u_escape (56320 + (c - 65536) mod 1024))"

definition json_str :: "pystr \<Rightarrow> pystr" where
  "json_str s = 34 # concat (map json_escape_char s) @ [34]"

fun json_items :: "(pystr \<times> pystr) list \<Rightarrow> pystr" where
  "json_items [] = []"
| "json_items [(k, v)] = json_str k @ [58] @ json_str v"
| "json_items ((k, v) # kvs) = json_str k @ [58] @ json_str v @ [44] @ json_items kvs"

definition json_dumps_compact :: "(pystr \<times> pystr) list \<Rightarrow> pystr" where
  "json_dumps_compact kvs = [123] @ json_items kvs @ [125]"

subsection \<open>\<open>str.encode()\<close>: strict UTF-8\<close>

definition utf8_char :: "nat \<Rightarrow> pybytes option" where
  "utf8_char c =
     (if c < 128 then Some [of_nat c]
      else if c < 2048 then Some [of_nat (192 + c div 64), of_nat (128 + c mod 64)]
      else if 55296 \<le> c \<and> c \<le> 57343 then None
      else if c < 65536 then
        Some [of_nat (224 + c div 4096), of_nat (128 + c div 64 mod 64), of_nat (128 + c mod 64)]
      else if c < 1114112 then
        Some [of_nat (240 + c div 262144), of_nat (128 + c div 4096 mod 64),
              of_nat (128 + c div 64 mod 64), of_nat (128 + c mod 64)]
      else None)"

fun encode :: "pystr \<Rightarrow> exn + pybytes" where
  "encode [] = Inr []"
| "encode (c # cs) =
     (case utf8_char c of
        None \<Rightarrow> Inl UnicodeEncodeError
      | Some bs \<Rightarrow> (case encode cs of Inl e \<Rightarrow> Inl e | Inr rest \<Rightarrow> Inr (bs @ rest)))"

subsection \<open>The script and the payload\<close>

definition build_inscription_script :: "pystr \<Rightarrow> exn + pybytes" where
  "build_inscription_script data_json =
     (let magic = [3] @ blit ''ord'' @ [17];
          mime = blit ''application/json'';
          null = [0]
      in case encode data_json of
           Inl e \<Rightarrow> Inl e
         | Inr body \<Rightarrow> Inr (magic @ mime @ null @ body))"

definition mint_payload :: "pystr \<Rightarrow> int \<Rightarrow> (pystr \<times> pystr) list" where
  "mint_payload tick amount =
     [(lit ''p'', lit ''zrc-20''), (lit ''op'', lit ''mint''),
      (lit ''tick'', tick), (lit ''amt'', str_int amount)]"

definition build_mint_json :: "pystr \<Rightarrow> int \<Rightarrow> pystr" where
  "build_mint_json tick amount = json_dumps_compact (mint_payload tick amount)"


section \<open>The outside world and the program state\<close>

text \<open>
  Every interaction with the outside is an event of the trace: a JSON-RPC POST to the
  node at an index, an HTTP GET, or a log record (level and message template). The
  world is an arbitrary function of the history and the request; its reply is either
  the exception raised by the HTTP layer (connection, status, body decoding) or the
  decoded JSON body. Waiting (rate limiters, the waits between retries) only delays:
  clock reads, sleeps and the timestamps they maintain are left out.
\<close>

datatype level = DEBUG | INFO | WARNING | ERROR

datatype request =
    RpcPost nat string "pyval list"
  | HttpGet pystr "(pystr \<times> pystr) list"

datatype reply = Raises exn | Json pyval

datatype event = IO request reply | Log level string

text \<open>
  Library functions the program calls and whose code is not part of it: \<open>float\<close> of a
  string, lower-casing of a code point beyond ASCII, and the transaction serialiser of
  the bitcoin library, which yields the raw transaction as hex. The serialiser is given
  the outpoint, the script, the UTXO's amount, the fee and the destination address: the
  output value \<open>int((amount - fee) * COIN)\<close> is a computation on doubles, whose
  rounding is not modelled, and is left to it.
\<close>

record env =
  world :: "event list \<Rightarrow> request \<Rightarrow> reply"
  float_of_str :: "pystr \<Rightarrow> rat option"
  lower_other :: "nat \<Rightarrow> pystr"
  serialize_tx :: "pybytes \<Rightarrow> pyval \<Rightarrow> pybytes \<Rightarrow> rat \<Rightarrow> rat \<Rightarrow> pystr \<Rightarrow> exn + pystr"

record state =
  index :: nat
  rr :: nat
  trace :: "event list"

definition init_state :: state where
  "init_state = \<lparr>index = 0, rr = 0, trace = []\<rparr>"

definition log :: "level \<Rightarrow> string \<Rightarrow> state \<Rightarrow> state" where
  "log lvl msg st = st\<lparr>trace := trace st @ [Log lvl msg]\<rparr>"

definition py_float :: "env \<Rightarrow> pyval \<Rightarrow> exn + rat" where
  "py_float E v =
     (case v of
        PFloat f \<Rightarrow> Inr f
      | PInt i \<Rightarrow> Inr (of_int i)
      | PBool b \<Rightarrow> Inr (if b then 1 else 0)
      | PStr s \<Rightarrow> (case float_of_str E s of None \<Rightarrow> Inl ValueError | Some f \<Rightarrow> Inr f)
      | _ \<Rightarrow> Inl TypeError)"

section \<open>RPC client (core/rpc.py)\<close>

record rpc_node =
  node_url :: pystr
  node_user :: "pystr option"
  node_pass :: "pystr option"

record rpc_client =
  nodes :: "rpc_node list"
  rpc_retry_attempts :: nat

definition RPCClient_init :: "rpc_node list \<Rightarrow> int \<Rightarrow> exn + rpc_client" where
  "RPCClient_init rpc_nodes retry_attempts =
     (if rpc_nodes = [] then Inl ValueError
      else Inr \<lparr>nodes = rpc_nodes, rpc_retry_attempts = nat (max 1 retry_attempts)\<rparr>)"

text \<open>The constructor refuses an empty node list, so the modulus is never zero.\<close>

definition switch_node :: "rpc_client \<Rightarrow> state \<Rightarrow> state" where
  "switch_node rpc st =
     log WARNING ''Switching RPC to node %s''
       (st\<lparr>index := (index st + 1) mod length (nodes rpc)\<rparr>)"

text \<open>The part of \<open>_perform_request\<close> after the HTTP layer: the error and result fields.\<close>

definition decode_rpc :: "reply \<Rightarrow> exn + pyval" where
  "decode_rpc r =
     (case r of
        Raises e \<Rightarrow> Inl e
      | Json result \<Rightarrow>
          (case py_get result (lit ''error'') of
             Inl e \<Rightarrow> Inl e
           | Inr err \<Rightarrow>
               if truthy err then Inl (RPCError err)
               else (case result of
                       PDict kvs \<Rightarrow>
                         (case map_of kvs (lit ''result'') of None \<Rightarrow> Inl KeyError | Some v \<Rightarrow> Inr v)
                     | _ \<Rightarrow> Inl TypeError)))"

definition perform_request ::
  "env \<Rightarrow> rpc_client \<Rightarrow> string \<Rightarrow> pyval list \<Rightarrow> state \<Rightarrow> (exn + pyval) \<times> state" where
  "perform_request E rpc method params st =
     (if index st < length (nodes rpc) then
        (let req = RpcPost (index st) method params;
             r = world E (trace st) req
         in (decode_rpc r, st\<lparr>trace := trace st @ [IO req r]\<rparr>))
      else (Inl IndexError, st))"

text \<open>\<open>retry_if_exception_type((requests.RequestException, RPCError))\<close>.\<close>

fun retryable :: "exn \<Rightarrow> bool" where
  "retryable RequestException = True"
| "retryable (RPCError _) = True"
| "retryable _ = False"

text \<open>
  \<open>call\<close>: every failed attempt logs and switches node; a retryable error is retried
  while attempts remain (\<open>k\<close> counts the attempts left after the current one), any other
  error and the last retryable one are re-raised.
\<close>

fun call_loop ::
  "env \<Rightarrow> rpc_client \<Rightarrow> string \<Rightarrow> pyval list \<Rightarrow> nat \<Rightarrow> state \<Rightarrow> (exn + pyval) \<times> state" where
  "call_loop E rpc method params 0 st =
     (case perform_request E rpc method params st of
        (Inr v, st1) \<Rightarrow> (Inr v, st1)
      | (Inl e, st1) \<Rightarrow> (Inl e, switch_node rpc (log ERROR ''RPC error on %s: %s'' st1)))"
| "call_loop E rpc method params (Suc k) st =
     (case perform_request E rpc method params st of
        (Inr v, st1) \<Rightarrow> (Inr v, st1)
      | (Inl e, st1) \<Rightarrow>
          (let st2 = switch_node rpc (log ERROR ''RPC error on %s: %s'' st1)
           in if retryable e then call_loop E rpc method params k st2 else (Inl e, st2)))"

definition call ::
  "env \<Rightarrow> rpc_client \<Rightarrow> string \<Rightarrow> pyval list \<Rightarrow> state \<Rightarrow> (exn + pyval) \<times> state" where
  "call E rpc method params st = call_loop E rpc method params (rpc_retry_attempts rpc - 1) st"

text \<open>A session of the client: calls issued one after the other, whatever their outcome.\<close>

fun run_calls :: "env \<Rightarrow> rpc_client \<Rightarrow> (string \<times> pyval list) list \<Rightarrow> state \<Rightarrow> state" where
  "run_calls E rpc [] st = st"
| "run_calls E rpc ((method, params) # cs) st =
     run_calls E rpc cs (snd (call E rpc method params st))"

text \<open>The nodes visited by the requests of a trace, in order, each with whether it failed.\<close>

fun visits :: "event list \<Rightarrow> (nat \<times> bool) list" where
  "visits [] = []"
| "visits (IO (RpcPost i method params) r # es) = (i, isl (decode_rpc r)) # visits es"
| "visits (e # es) = visits es"

text \<open>
  Replaying a visit list from a start index: a request goes to the current node, a
  failure moves to the next node modulo \<open>n\<close>, a success stays.
\<close>

fun replay :: "nat \<Rightarrow> nat \<Rightarrow> (nat \<times> bool) list \<Rightarrow> nat option" where
  "replay n i [] = Some i"
| "replay n i ((j, failed) # vs) =
     (if j = i then replay n (if failed then (i + 1) mod n else i) vs else None)"


text \<open>The client's invariant: the index is in range and the visits so far lead to it.\<close>

definition chained :: "rpc_client \<Rightarrow> nat \<Rightarrow> state \<Rightarrow> bool" where
  "chained rpc i0 st \<longleftrightarrow>
     index st < length (nodes rpc) \<and>
     replay (length (nodes rpc)) i0 (visits (trace st)) = Some (index st)"

section \<open>Fee estimator (core/mint-engine)\<close>

record fee_estimator =
  default_fee :: rat
  dynamic :: bool
  tx_size_bytes :: int
  external_fee_api :: "(pystr \<times> pystr) list"

text \<open>\<open>requests.get\<close>, \<open>raise_for_status\<close> and \<open>response.json()\<close>.\<close>

definition http_get ::
  "env \<Rightarrow> pystr \<Rightarrow> (pystr \<times> pystr) list \<Rightarrow> state \<Rightarrow> (exn + pyval) \<times> state" where
  "http_get E url params st =
     (let req = HttpGet url params;
          r = world E (trace st) req
      in (case r of Raises e \<Rightarrow> Inl e | Json data \<Rightarrow> Inr data,
          st\<lparr>trace := trace st @ [IO req r]\<rparr>))"

text \<open>The \<open>try\<close> block of \<open>_estimate_from_rpc\<close>, then the method with its handler.\<close>

definition estimate_from_rpc_try ::
  "env \<Rightarrow> rpc_client \<Rightarrow> fee_estimator \<Rightarrow> state \<Rightarrow> (exn + rat option) \<times> state" where
  "estimate_from_rpc_try E rpc fe st =
     (case call E rpc ''estimatesmartfee'' [PInt 2] st of
        (Inl e, st1) \<Rightarrow> (Inl e, st1)
      | (Inr result, st1) \<Rightarrow>
          (let feerate =
                 (case result of
                    PDict kvs \<Rightarrow> (case map_of kvs (lit ''feerate'') of None \<Rightarrow> PNone | Some v \<Rightarrow> v)
                  | _ \<Rightarrow> PNone)
           in if truthy feerate then
                (case py_float E feerate of
                   Inl e \<Rightarrow> (Inl e, st1)
                 | Inr f \<Rightarrow> (Inr (Some (f * (of_int (tx_size_bytes fe) / 1000))), st1))
              else (Inr None, st1)))"

definition estimate_from_rpc ::
  "env \<Rightarrow> rpc_client \<Rightarrow> fee_estimator \<Rightarrow> state \<Rightarrow> (exn + rat option) \<times> state" where
  "estimate_from_rpc E rpc fe st =
     (case estimate_from_rpc_try E rpc fe st of
        (Inl e, st1) \<Rightarrow> (Inr None, log WARNING ''RPC fee estimation failed: %s'' st1)
      | (Inr r, st1) \<Rightarrow> (Inr r, st1))"

definition estimate_from_api_try ::
  "env \<Rightarrow> fee_estimator \<Rightarrow> pystr \<Rightarrow> state \<Rightarrow> (exn + rat option) \<times> state" where
  "estimate_from_api_try E fe url st =
     (case http_get E url [] st of
        (Inl e, st1) \<Rightarrow> (Inl e, st1)
      | (Inr data, st1) \<Rightarrow>
          (case py_get data
                  (case map_of (external_fee_api fe) (lit ''field'') of
                     None \<Rightarrow> lit ''fee'' | Some f \<Rightarrow> f) of
             Inl e \<Rightarrow> (Inl e, st1)
           | Inr fee_value \<Rightarrow>
               if truthy fee_value then
                 (case py_float E fee_value of
                    Inl e \<Rightarrow> (Inl e, st1)
                  | Inr f \<Rightarrow> (Inr (Some f), st1))
               else (Inr None, st1)))"

definition estimate_from_api ::
  "env \<Rightarrow> fee_estimator \<Rightarrow> state \<Rightarrow> (exn + rat option) \<times> state" where
  "estimate_from_api E fe st =
     (case map_of (external_fee_api fe) (lit ''url'') of
        None \<Rightarrow> (Inr None, st)
      | Some url \<Rightarrow>
          if url = [] then (Inr None, st)
          else (case estimate_from_api_try E fe url st of
                  (Inl e, st1) \<Rightarrow> (Inr None, log WARNING ''External fee API failed: %s'' st1)
                | (Inr r, st1) \<Rightarrow> (Inr r, st1)))"

text \<open>
  The loop of \<open>estimate\<close> over its sources: the first truthy fee (present and not zero)
  is logged and returned; after the last source the default is returned.
\<close>

fun fee_loop ::
  "(state \<Rightarrow> (exn + rat option) \<times> state) list \<Rightarrow> rat \<Rightarrow> state \<Rightarrow> (exn + rat) \<times> state" where
  "fee_loop [] dflt st = (Inr dflt, st)"
| "fee_loop (source # rest) dflt st =
     (case source st of
        (Inl e, st1) \<Rightarrow> (Inl e, st1)
      | (Inr None, st1) \<Rightarrow> fee_loop rest dflt st1
      | (Inr (Some fee), st1) \<Rightarrow>
          if fee \<noteq> 0 then (Inr fee, log DEBUG ''Selected fee %.8f from %s'' st1)
          else fee_loop rest dflt st1)"

definition estimate ::
  "env \<Rightarrow> rpc_client \<Rightarrow> fee_estimator \<Rightarrow> state \<Rightarrow> (exn + rat) \<times> state" where
  "estimate E rpc fe st =
     (if \<not> dynamic fe then (Inr (default_fee fe), st)
      else fee_loop
             [estimate_from_rpc E rpc fe, estimate_from_api E fe,
              \<lambda>st. (Inr (Some (default_fee fe)), st)]
             (default_fee fe) st)"

section \<open>Mempool scanner\<close>

record mempool_scanner =
  max_scan :: int

text \<open>\<open>str.lower()\<close>: ASCII letters here, the other code points by the library table.\<close>

definition lower_cp :: "env \<Rightarrow> nat \<Rightarrow> pystr" where
  "lower_cp E c = (if 65 \<le> c \<and> c \<le> 90 then [c + 32] else if c < 128 then [c] else lower_other E c)"

definition str_lower :: "env \<Rightarrow> pystr \<Rightarrow> pystr" where
  "str_lower E s = concat (map (lower_cp E) s)"

definition hexval :: "nat \<Rightarrow> nat option" where
  "hexval c =
     (if 48 \<le> c \<and> c \<le> 57 then Some (c - 48)
      else if 97 \<le> c \<and> c \<le> 102 then Some (c - 87)
      else if 65 \<le> c \<and> c \<le> 70 then Some (c - 55)
      else None)"

definition is_space :: "nat \<Rightarrow> bool" where
  "is_space c \<longleftrightarrow> c = 32 \<or> (9 \<le> c \<and> c \<le> 13)"

text \<open>\<open>bytes.fromhex\<close>: two hex digits per byte, ASCII whitespace skipped between bytes.\<close>

fun fromhex :: "pystr \<Rightarrow> pybytes option" where
  "fromhex [] = Some []"
| "fromhex [c] = (if is_space c then Some [] else None)"
| "fromhex (c # d # cs) =
     (if is_space c then fromhex (d # cs)
      else (case (hexval c, hexval d) of
              (Some h, Some l) \<Rightarrow>
                (case fromhex cs of None \<Rightarrow> None | Some bs \<Rightarrow> Some (of_nat (16 * h + l) # bs))
            | _ \<Rightarrow> None))"

text \<open>\<open>needle in haystack\<close> on bytes.\<close>

fun starts_with :: "pybytes \<Rightarrow> pybytes \<Rightarrow> bool" where
  "starts_with [] hay = True"
| "starts_with (n # ns) [] = False"
| "starts_with (n # ns) (h # hs) = (n = h \<and> starts_with ns hs)"

fun bytes_contains :: "pybytes \<Rightarrow> pybytes \<Rightarrow> bool" where
  "bytes_contains needle [] = (needle = [])"
| "bytes_contains needle (h # hs) = (starts_with needle (h # hs) \<or> bytes_contains needle hs)"

text \<open>The condition of the scan: \<open>tick.lower().encode() in bytes.fromhex(raw.lower())\<close>.\<close>

definition tick_in_raw :: "env \<Rightarrow> pystr \<Rightarrow> pyval \<Rightarrow> exn + bool" where
  "tick_in_raw E tick raw =
     (case encode (str_lower E tick) of
        Inl e \<Rightarrow> Inl e
      | Inr needle \<Rightarrow>
          (case raw of
             PStr s \<Rightarrow>
               (case fromhex (str_lower E s) of
                  None \<Rightarrow> Inl ValueError
                | Some hay \<Rightarrow> Inr (bytes_contains needle hay))
           | _ \<Rightarrow> Inl AttributeError))"

text \<open>The \<open>try\<close> block of the loop body, for one transaction id.\<close>

definition scan_one ::
  "env \<Rightarrow> rpc_client \<Rightarrow> pystr \<Rightarrow> pyval \<Rightarrow> state \<Rightarrow> (exn + bool) \<times> state" where
  "scan_one E rpc tick txid st =
     (case call E rpc ''getrawtransaction'' [txid] st of
        (Inl e, st1) \<Rightarrow> (Inl e, st1)
      | (Inr raw, st1) \<Rightarrow> (tick_in_raw E tick raw, st1))"

fun scan :: "env \<Rightarrow> rpc_client \<Rightarrow> pystr \<Rightarrow> pyval list \<Rightarrow> state \<Rightarrow> bool \<times> state" where
  "scan E rpc tick [] st = (False, st)"
| "scan E rpc tick (txid # rest) st =
     (case scan_one E rpc tick txid st of
        (Inr True, st1) \<Rightarrow> (True, log INFO ''Tick %s already in mempool via %s'' st1)
      | (Inr False, st1) \<Rightarrow> scan E rpc tick rest st1
      | (Inl e, st1) \<Rightarrow> scan E rpc tick rest st1)"

text \<open>\<open>xs[:n]\<close> and the iteration over it; only a list or a string can be sliced.\<close>

definition slice_to :: "'a list \<Rightarrow> int \<Rightarrow> 'a list" where
  "slice_to xs n = (if 0 \<le> n then take (nat n) xs else take (nat (int (length xs) + n)) xs)"

definition iter_slice :: "pyval \<Rightarrow> int \<Rightarrow> exn + pyval list" where
  "iter_slice v n =
     (case v of
        PList xs \<Rightarrow> Inr (slice_to xs n)
      | PStr s \<Rightarrow> Inr (map (\<lambda>c. PStr [c]) (slice_to s n))
      | _ \<Rightarrow> Inl TypeError)"

definition contains_tick ::
  "env \<Rightarrow> rpc_client \<Rightarrow> mempool_scanner \<Rightarrow> pystr \<Rightarrow> state \<Rightarrow> (exn + bool) \<times> state" where
  "contains_tick E rpc ms tick st =
     (case call E rpc ''getrawmempool'' [] st of
        (Inl e, st1) \<Rightarrow> (Inr False, log WARNING ''Mempool scan failed: %s'' st1)
      | (Inr txids, st1) \<Rightarrow>
          (case iter_slice txids (max_scan ms) of
             Inl e \<Rightarrow> (Inl e, st1)
           | Inr ids \<Rightarrow> (case scan E rpc tick ids st1 of (b, st2) \<Rightarrow> (Inr b, st2))))"

section \<open>External ticker watcher\<close>

record ticker_watcher =
  api_cfg :: "(pystr \<times> pystr) list"

definition is_tick_live_try ::
  "env \<Rightarrow> pystr \<Rightarrow> pystr \<Rightarrow> state \<Rightarrow> (exn + bool) \<times> state" where
  "is_tick_live_try E url tick st =
     (case http_get E url [(lit ''tick'', tick)] st of
        (Inl e, st1) \<Rightarrow> (Inl e, st1)
      | (Inr data, st1) \<Rightarrow>
          (case py_get_default data (lit ''live'') (PBool True) of
             Inl e \<Rightarrow> (Inl e, st1)
           | Inr v \<Rightarrow> (Inr (truthy v), st1)))"

definition is_tick_live :: "env \<Rightarrow> ticker_watcher \<Rightarrow> pystr \<Rightarrow> state \<Rightarrow> bool \<times> state" where
  "is_tick_live E tw tick st =
     (case map_of (api_cfg tw) (lit ''url'') of
        None \<Rightarrow> (True, st)
      | Some url \<Rightarrow>
          if url = [] then (True, st)
          else (case is_tick_live_try E url tick st of
                  (Inl e, st1) \<Rightarrow> (True, log WARNING ''Ticker API unavailable: %s'' st1)
                | (Inr b, st1) \<Rightarrow> (b, st1)))"


section \<open>Wallets (core/wallet.py)\<close>

record utxo =
  txid :: pyval
  vout :: pyval
  amount :: rat
  address :: pyval

record wallet =
  wallet_address :: pystr
  wallet_label :: pystr

text \<open>One element of the \<open>listunspent\<close> result turned into a \<open>UTXO\<close>.\<close>

definition parse_utxo :: "env \<Rightarrow> pystr \<Rightarrow> pyval \<Rightarrow> exn + utxo" where
  "parse_utxo E self_address u =
     (case u of
        PDict kvs \<Rightarrow>
          (case map_of kvs (lit ''txid'') of
             None \<Rightarrow> Inl KeyError
           | Some t \<Rightarrow>
               (case map_of kvs (lit ''vout'') of
                  None \<Rightarrow> Inl KeyError
                | Some v \<Rightarrow>
                    (case map_of kvs (lit ''amount'') of
                       None \<Rightarrow> Inl KeyError
                     | Some a \<Rightarrow>
                         (case py_float E a of
                            Inl e \<Rightarrow> Inl e
                          | Inr f \<Rightarrow>
                              Inr \<lparr>txid = t, vout = v, amount = f,
                                   address = (case map_of kvs (lit ''address'') of
                                                None \<Rightarrow> PStr self_address | Some x \<Rightarrow> x)\<rparr>))))
      | _ \<Rightarrow> Inl TypeError)"

fun parse_utxos :: "env \<Rightarrow> pystr \<Rightarrow> pyval list \<Rightarrow> exn + utxo list" where
  "parse_utxos E self_address [] = Inr []"
| "parse_utxos E self_address (u # us) =
     (case parse_utxo E self_address u of
        Inl e \<Rightarrow> Inl e
      | Inr x \<Rightarrow> (case parse_utxos E self_address us of Inl e \<Rightarrow> Inl e | Inr xs \<Rightarrow> Inr (x # xs)))"

definition py_iter :: "pyval \<Rightarrow> exn + pyval list" where
  "py_iter v =
     (case v of
        PList xs \<Rightarrow> Inr xs
      | PStr s \<Rightarrow> Inr (map (\<lambda>c. PStr [c]) s)
      | PDict kvs \<Rightarrow> Inr (map (\<lambda>kv. PStr (fst kv)) kvs)
      | _ \<Rightarrow> Inl TypeError)"

definition list_utxos ::
  "env \<Rightarrow> rpc_client \<Rightarrow> wallet \<Rightarrow> int \<Rightarrow> state \<Rightarrow> (exn + utxo list) \<times> state" where
  "list_utxos E rpc w min_conf st =
     (case call E rpc ''listunspent''
             [PInt min_conf, PInt 9999999, PList [PStr (wallet_address w)]] st of
        (Inl e, st1) \<Rightarrow> (Inl e, st1)
      | (Inr utxos, st1) \<Rightarrow>
          (case py_iter utxos of
             Inl e \<Rightarrow> (Inl e, st1)
           | Inr us \<Rightarrow> (parse_utxos E (wallet_address w) us, st1)))"

text \<open>\<open>max(xs, key=f)\<close> on a non-empty sequence: the first element with the largest key.\<close>

fun max_by :: "('a \<Rightarrow> rat) \<Rightarrow> 'a \<Rightarrow> 'a list \<Rightarrow> 'a" where
  "max_by f best [] = best"
| "max_by f best (x # xs) = max_by f (if f best < f x then x else best) xs"

definition select_largest_utxo ::
  "env \<Rightarrow> rpc_client \<Rightarrow> wallet \<Rightarrow> int \<Rightarrow> state \<Rightarrow> (exn + utxo) \<times> state" where
  "select_largest_utxo E rpc w min_conf st =
     (case list_utxos E rpc w min_conf st of
        (Inl e, st1) \<Rightarrow> (Inl e, st1)
      | (Inr [], st1) \<Rightarrow> (Inl (RuntimeError (lit ''No spendable UTXOs for '' @ wallet_label w)), st1)
      | (Inr (u # us), st1) \<Rightarrow> (Inr (max_by amount u us), log INFO ''Selected UTXO %s:%s for %s'' st1))"

definition balance ::
  "env \<Rightarrow> rpc_client \<Rightarrow> wallet \<Rightarrow> int \<Rightarrow> state \<Rightarrow> (exn + rat) \<times> state" where
  "balance E rpc w min_conf st =
     (case list_utxos E rpc w min_conf st of
        (Inl e, st1) \<Rightarrow> (Inl e, st1)
      | (Inr us, st1) \<Rightarrow> (Inr (sum_list (map amount us)), st1))"

text \<open>\<open>MultiWallet\<close>: the wallet list is not empty; \<open>rr\<close> is the position of the cycle.\<close>

definition next_wallet :: "wallet list \<Rightarrow> state \<Rightarrow> (exn + wallet) \<times> state" where
  "next_wallet ws st = (Inr (ws ! (rr st mod length ws)), st\<lparr>rr := rr st + 1\<rparr>)"

fun balances ::
  "env \<Rightarrow> rpc_client \<Rightarrow> wallet list \<Rightarrow> int \<Rightarrow> state \<Rightarrow> (exn + (wallet \<times> rat) list) \<times> state" where
  "balances E rpc [] min_conf st = (Inr [], st)"
| "balances E rpc (w # ws) min_conf st =
     (case balance E rpc w min_conf st of
        (Inl e, st1) \<Rightarrow> (Inl e, st1)
      | (Inr b, st1) \<Rightarrow>
          (case balances E rpc ws min_conf st1 of
             (Inl e, st2) \<Rightarrow> (Inl e, st2)
           | (Inr bs, st2) \<Rightarrow> (Inr ((w, b) # bs), st2)))"

definition richest_wallet ::
  "env \<Rightarrow> rpc_client \<Rightarrow> wallet list \<Rightarrow> int \<Rightarrow> state \<Rightarrow> (exn + wallet) \<times> state" where
  "richest_wallet E rpc ws min_conf st =
     (case balances E rpc ws min_conf st of
        (Inl e, st1) \<Rightarrow> (Inl e, st1)
      | (Inr [], st1) \<Rightarrow> (Inl ValueError, st1)
      | (Inr (b # bs), st1) \<Rightarrow> (Inr (fst (max_by snd b bs)), st1))"

text \<open>
  Attribute lookup of a method on a \<open>MultiWallet\<close> by name: the class defines
  \<open>next_wallet\<close>, \<open>richest_wallet\<close> and \<open>all\<close>; any other name raises AttributeError.
\<close>

datatype multiwallet_method = Next_wallet | Richest_wallet | All_wallets

definition MultiWallet_method :: "string \<Rightarrow> multiwallet_method option" where
  "MultiWallet_method name =
     (if name = ''next_wallet'' then Some Next_wallet
      else if name = ''richest_wallet'' then Some Richest_wallet
      else if name = ''all'' then Some All_wallets
      else None)"

section \<open>Wallet selector (main.py)\<close>

record wallet_selector =
  wallets :: "wallet list"
  strategy :: pystr

text \<open>
  \<open>self.multi\<close> is a \<open>MultiWallet\<close> when there is more than one wallet and None
  otherwise. With the strategy \<open>richest\<close>, \<open>pick\<close> calls the method named
  \<open>richest\<close> with one argument.
\<close>

definition pick ::
  "env \<Rightarrow> rpc_client \<Rightarrow> wallet_selector \<Rightarrow> int \<Rightarrow> state \<Rightarrow> (exn + wallet) \<times> state" where
  "pick E rpc sel min_conf st =
     (if \<not> 1 < length (wallets sel) then
        (case wallets sel of [] \<Rightarrow> (Inl IndexError, st) | w # ws \<Rightarrow> (Inr w, st))
      else if strategy sel = lit ''richest'' then
        (case MultiWallet_method ''richest'' of
           None \<Rightarrow> (Inl AttributeError, st)
         | Some Richest_wallet \<Rightarrow> richest_wallet E rpc (wallets sel) min_conf st
         | Some Next_wallet \<Rightarrow> (Inl TypeError, st)
         | Some All_wallets \<Rightarrow> (Inl TypeError, st))
      else next_wallet (wallets sel) st)"

section \<open>Mint engine (core/mint-engine)\<close>

record mint_engine =
  rpc :: rpc_client
  fee_estimator :: fee_estimator
  retry_attempts :: int
  mempool_scanner :: "mempool_scanner option"
  ticker_watcher :: "ticker_watcher option"

text \<open>The constructor: the estimator's transaction size keeps its default.\<close>

definition MintEngine_init ::
  "rpc_client \<Rightarrow> rat \<Rightarrow> int \<Rightarrow> bool \<Rightarrow> (pystr \<times> pystr) list \<Rightarrow>
   mempool_scanner option \<Rightarrow> ticker_watcher option \<Rightarrow> mint_engine" where
  "MintEngine_init r dflt retry fee_dynamic fee_api scanner watcher =
     \<lparr>rpc = r,
      fee_estimator = \<lparr>default_fee = dflt, dynamic = fee_dynamic, tx_size_bytes = 400,
                        external_fee_api = fee_api\<rparr>,
      retry_attempts = retry, mempool_scanner = scanner, ticker_watcher = watcher\<rparr>"

text \<open>\<open>stop_after_attempt(max(1, retry_attempts))\<close>.\<close>

definition attempt_budget :: "mint_engine \<Rightarrow> nat" where
  "attempt_budget eng = nat (max 1 (retry_attempts eng))"

definition should_proceed ::
  "env \<Rightarrow> mint_engine \<Rightarrow> pystr \<Rightarrow> state \<Rightarrow> (exn + bool) \<times> state" where
  "should_proceed E eng tick st =
     (case (case ticker_watcher eng of
              None \<Rightarrow> (True, st)
            | Some tw \<Rightarrow> is_tick_live E tw tick st) of
        (live, st1) \<Rightarrow>
          if \<not> live then (Inr False, log DEBUG ''Ticker %s not yet live per API'' st1)
          else (case mempool_scanner eng of
                  None \<Rightarrow> (Inr True, st1)
                | Some ms \<Rightarrow>
                    (case contains_tick E (rpc eng) ms tick st1 of
                       (Inl e, st2) \<Rightarrow> (Inl e, st2)
                     | (Inr pending, st2) \<Rightarrow>
                         if pending then
                           (Inr False,
                            log INFO ''Ticker %s already in mempool, skipping to avoid duplicates'' st2)
                         else (Inr True, st2))))"

definition can_mint :: "env \<Rightarrow> mint_engine \<Rightarrow> pystr \<Rightarrow> state \<Rightarrow> (exn + bool) \<times> state" where
  "can_mint E eng tick st = should_proceed E eng tick st"

text \<open>\<open>lx\<close> of the bitcoin library: the bytes of a hex string, reversed.\<close>

fun unhexlify :: "nat list \<Rightarrow> pybytes option" where
  "unhexlify [] = Some []"
| "unhexlify [c] = None"
| "unhexlify (c # d # cs) =
     (case (hexval c, hexval d) of
        (Some h, Some l) \<Rightarrow>
          (case unhexlify cs of None \<Rightarrow> None | Some bs \<Rightarrow> Some (of_nat (16 * h + l) # bs))
      | _ \<Rightarrow> None)"

definition lx :: "pyval \<Rightarrow> exn + pybytes" where
  "lx h =
     (case h of
        PStr s \<Rightarrow>
          (case encode s of
             Inl e \<Rightarrow> Inl e
           | Inr bs \<Rightarrow>
               (case unhexlify (map unat bs) of None \<Rightarrow> Inl ValueError | Some b \<Rightarrow> Inr (rev b)))
      | _ \<Rightarrow> Inl AttributeError)"

text \<open>
  \<open>_build_transaction\<close> up to the point where the library takes over: the reversed
  transaction id, the sufficiency check (on doubles the test \<open>a - f <= 0\<close> decides as
  the exact one does), the inscription script. The library then computes the output
  value, builds and serialises the transaction (\<open>serialize_tx\<close>).
\<close>

definition build_transaction :: "env \<Rightarrow> utxo \<Rightarrow> pystr \<Rightarrow> pystr \<Rightarrow> rat \<Rightarrow> exn + pystr" where
  "build_transaction E u dest_address inscription_json fee =
     (case lx (txid u) of
        Inl e \<Rightarrow> Inl e
      | Inr txid_bytes \<Rightarrow>
          (let send_val = amount u - fee
           in if send_val \<le> 0 then
                Inl (RuntimeError (lit ''Selected UTXO does not cover fee''))
              else
                (case build_inscription_script inscription_json of
                   Inl e \<Rightarrow> Inl e
                 | Inr script \<Rightarrow>
                     serialize_tx E txid_bytes (vout u) script (amount u) fee dest_address)))"

text \<open>\<open>_execute\<close>: build, sign, broadcast.\<close>

definition execute ::
  "env \<Rightarrow> mint_engine \<Rightarrow> utxo \<Rightarrow> pystr \<Rightarrow> int \<Rightarrow> pystr \<Rightarrow> rat \<Rightarrow> state \<Rightarrow> (exn + pyval) \<times> state" where
  "execute E eng u tick amt dest_address fee st =
     (case build_transaction E u dest_address (json_dumps_compact (mint_payload tick amt)) fee of
        Inl e \<Rightarrow> (Inl e, st)
      | Inr raw_hex \<Rightarrow>
          (case call E (rpc eng) ''signrawtransaction'' [PStr raw_hex] st of
             (Inl e, st1) \<Rightarrow> (Inl e, st1)
           | (Inr signed_tx, st1) \<Rightarrow>
               (case py_get_default signed_tx (lit ''hex'') (PStr raw_hex) of
                  Inl e \<Rightarrow> (Inl e, st1)
                | Inr final_hex \<Rightarrow>
                    (case call E (rpc eng) ''sendrawtransaction'' [final_hex] st1 of
                       (Inl e, st2) \<Rightarrow> (Inl e, st2)
                     | (Inr txid_broadcast, st2) \<Rightarrow>
                         (Inr txid_broadcast, log INFO ''Broadcasted %s'' st2)))))"

text \<open>
  The retry loop of \<open>mint\<close>: the retryer retries on any exception; \<open>k\<close> counts the
  attempts left after the current one, and the last error is re-raised.
\<close>

fun mint_loop ::
  "env \<Rightarrow> mint_engine \<Rightarrow> utxo \<Rightarrow> pystr \<Rightarrow> int \<Rightarrow> pystr \<Rightarrow> rat \<Rightarrow> nat \<Rightarrow> state \<Rightarrow>
   (exn + pyval) \<times> state" where
  "mint_loop E eng u tick amt dest_address fee 0 st =
     (case execute E eng u tick amt dest_address fee st of
        (Inr v, st1) \<Rightarrow> (Inr v, st1)
      | (Inl e, st1) \<Rightarrow> (Inl e, log ERROR ''Mint attempt failed: %s'' st1))"
| "mint_loop E eng u tick amt dest_address fee (Suc k) st =
     (case execute E eng u tick amt dest_address fee st of
        (Inr v, st1) \<Rightarrow> (Inr v, st1)
      | (Inl e, st1) \<Rightarrow>
          mint_loop E eng u tick amt dest_address fee k (log ERROR ''Mint attempt failed: %s'' st1))"

definition mint ::
  "env \<Rightarrow> mint_engine \<Rightarrow> utxo \<Rightarrow> pystr \<Rightarrow> int \<Rightarrow> pystr \<Rightarrow> state \<Rightarrow> (exn + pyval) \<times> state" where
  "mint E eng u tick amt dest_address st =
     (case should_proceed E eng tick st of
        (Inl e, st1) \<Rightarrow> (Inl e, st1)
      | (Inr proceed, st1) \<Rightarrow>
          if \<not> proceed then
            (Inl (RuntimeError (lit ''Tick '' @ tick @ lit '' gated by watcher'')), st1)
          else
            (case estimate E (rpc eng) (fee_estimator eng) st1 of
               (Inl e, st2) \<Rightarrow> (Inl e, st2)
             | (Inr fee, st2) \<Rightarrow>
                 mint_loop E eng u tick amt dest_address fee (attempt_budget eng - 1)
                   (log INFO ''Minting tick=%s amount=%s via UTXO %s:%s fee=%f'' st2)))"

text \<open>Observations on a trace: the requests by method, the fee look-ups, the attempts.\<close>

fun is_rpc :: "string \<Rightarrow> event \<Rightarrow> bool" where
  "is_rpc m (IO (RpcPost i method params) r) = (method = m)"
| "is_rpc m e = False"

fun is_http :: "event \<Rightarrow> bool" where
  "is_http (IO (HttpGet url params) r) = True"
| "is_http e = False"

definition rpc_calls :: "string \<Rightarrow> event list \<Rightarrow> nat" where
  "rpc_calls m tr = length (filter (is_rpc m) tr)"

definition failed_attempts :: "event list \<Rightarrow> nat" where
  "failed_attempts tr = length (filter (\<lambda>e. e = Log ERROR ''Mint attempt failed: %s'') tr)"


text \<open>Printable ASCII other than the double quote and the backslash.\<close>

definition plain_char :: "nat \<Rightarrow> bool" where
  "plain_char c \<longleftrightarrow> 32 \<le> c \<and> c \<le> 126 \<and> c \<noteq> 34 \<and> c \<noteq> 92"

section \<open>Concrete scenarios\<close>

text \<open>Two nodes, three attempts per call, and a world in which every request fails.\<close>

definition E_down :: env where
  "E_down = \<lparr>world = (\<lambda>tr req. Raises RequestException), float_of_str = (\<lambda>s. None),
     lower_other = (\<lambda>c. [c]), serialize_tx = (\<lambda>t v s a f d. Inr (lit ''0100''))\<rparr>"

definition nodes2 :: "rpc_node list" where
  "nodes2 = [\<lparr>node_url = lit ''http://a'', node_user = None, node_pass = None\<rparr>,
             \<lparr>node_url = lit ''http://b'', node_user = None, node_pass = None\<rparr>]"

definition rpc2 :: rpc_client where
  "rpc2 = \<lparr>nodes = nodes2, rpc_retry_attempts = 3\<rparr>"

text \<open>Observations and scenarios for the fee estimator.\<close>

definition http_gets :: "event list \<Rightarrow> event list" where
  "http_gets tr = filter is_http tr"

definition falsy :: "rat option \<Rightarrow> bool" where
  "falsy r = (case r of None \<Rightarrow> True | Some f \<Rightarrow> f = 0)"

definition E_feeds :: "pyval \<Rightarrow> pyval \<Rightarrow> env" where
  "E_feeds node_result body =
     \<lparr>world = (\<lambda>tr req. case req of
                 RpcPost i m ps \<Rightarrow> Json (PDict [(lit ''result'', node_result), (lit ''error'', PNone)])
               | HttpGet url ps \<Rightarrow> Json body),
      float_of_str = (\<lambda>s. None), lower_other = (\<lambda>c. [c]),
      serialize_tx = (\<lambda>t v s a f d. Inr (lit ''0100''))\<rparr>"

definition fe_static :: fee_estimator where
  "fe_static = \<lparr>default_fee = 1 / 10000, dynamic = False, tx_size_bytes = 400, external_fee_api = []\<rparr>"

definition fe_dynamic :: fee_estimator where
  "fe_dynamic = \<lparr>default_fee = 1 / 10000, dynamic = True, tx_size_bytes = 400,
     external_fee_api = [(lit ''url'', lit ''http://fees'')]\<rparr>"

definition feerate_of :: "pyval \<Rightarrow> pyval" where
  "feerate_of v = PDict [(lit ''feerate'', v)]"

definition fee_of :: "pyval \<Rightarrow> pyval" where
  "fee_of v = PDict [(lit ''fee'', v)]"

definition E_node_only :: env where
  "E_node_only = E_feeds (feerate_of (PFloat (1 / 1000))) (fee_of (PFloat (1 / 5000)))"

definition E_api_only :: env where
  "E_api_only = E_feeds (feerate_of (PInt 0)) (fee_of (PFloat (1 / 5000)))"

definition E_negative :: env where
  "E_negative = E_feeds (feerate_of (PInt (- 1))) PNone"

definition nonneg :: "exn + rat option \<Rightarrow> bool" where
  "nonneg r = (case r of Inr (Some f) \<Rightarrow> 0 \<le> f | _ \<Rightarrow> True)"

definition falsy_field :: "(pystr \<times> pyval) list \<Rightarrow> pystr \<Rightarrow> bool" where
  "falsy_field kvs k = (case map_of kvs k of None \<Rightarrow> True | Some v \<Rightarrow> \<not> truthy v)"

definition fee_field :: "fee_estimator \<Rightarrow> pystr" where
  "fee_field fe = (case map_of (external_fee_api fe) (lit ''field'') of None \<Rightarrow> lit ''fee'' | Some f \<Rightarrow> f)"

definition E_zero :: env where
  "E_zero = E_feeds (feerate_of (PInt 0)) (fee_of (PInt 0))"

text \<open>Errors raised by the engine, and scenarios for it.\<close>

definition insufficient :: exn where
  "insufficient = RuntimeError (lit ''Selected UTXO does not cover fee'')"

definition gated :: "pystr \<Rightarrow> exn" where
  "gated tick = RuntimeError (lit ''Tick '' @ tick @ lit '' gated by watcher'')"

definition eng_static :: mint_engine where
  "eng_static = MintEngine_init rpc2 11 3 False [] None None"

definition utxo10 :: utxo where
  "utxo10 = \<lparr>txid = PStr (lit ''00''), vout = PInt 0, amount = 10, address = PStr (lit ''t1'')\<rparr>"

text \<open>A ticker API and a node whose mempool holds one transaction, and engines that use them.\<close>

definition E_gate :: "pyval \<Rightarrow> pystr \<Rightarrow> env" where
  "E_gate live rawhex =
     \<lparr>world = (\<lambda>tr req. case req of
                 RpcPost i m ps \<Rightarrow>
                   if m = ''getrawmempool'' then
                     Json (PDict [(lit ''result'', PList [PStr (lit ''ab'')]), (lit ''error'', PNone)])
                   else if m = ''getrawtransaction'' then
                     Json (PDict [(lit ''result'', PStr rawhex), (lit ''error'', PNone)])
                   else Raises RequestException
               | HttpGet url ps \<Rightarrow> Json (PDict [(lit ''live'', live)])),
      float_of_str = (\<lambda>s. None), lower_other = (\<lambda>c. [c]),
      serialize_tx = (\<lambda>t v s a f d. Inr (lit ''0100''))\<rparr>"

definition E_not_live :: env where
  "E_not_live = E_gate (PBool False) (lit ''00'')"

definition E_pending :: env where
  "E_pending = E_gate (PBool True) (lit ''7a65726f'')"

definition watcher :: ticker_watcher where
  "watcher = \<lparr>api_cfg = [(lit ''url'', lit ''http://ticker'')]\<rparr>"

definition eng_watch :: mint_engine where
  "eng_watch = MintEngine_init rpc2 (1 / 10000) 3 True [] None (Some watcher)"

definition eng_scan :: mint_engine where
  "eng_scan = MintEngine_init rpc2 (1 / 10000) 3 True [] (Some \<lparr>max_scan = 100\<rparr>) (Some watcher)"

text \<open>Scenarios for signing, for the mempool scan and for wallet selection.\<close>

definition E_unsigned :: env where
  "E_unsigned =
     \<lparr>world = (\<lambda>tr req. case req of
                 RpcPost i m ps \<Rightarrow>
                   if m = ''signrawtransaction'' then
                     Json (PDict [(lit ''result'', PDict [(lit ''complete'', PBool False)]),
                                  (lit ''error'', PNone)])
                   else Json (PDict [(lit ''result'', PStr (lit ''beef'')), (lit ''error'', PNone)])
               | HttpGet url ps \<Rightarrow> Raises RequestException),
      float_of_str = (\<lambda>s. None), lower_other = (\<lambda>c. [c]),
      serialize_tx = (\<lambda>t v s a f d. Inr (lit ''0100''))\<rparr>"

definition utxo1 :: utxo where
  "utxo1 = \<lparr>txid = PStr (lit ''00''), vout = PInt 0, amount = 1, address = PStr (lit ''t1'')\<rparr>"

definition eng_plain :: mint_engine where
  "eng_plain = MintEngine_init rpc2 (1 / 10000) 3 False [] None None"

definition hexlify :: "pybytes \<Rightarrow> pystr" where
  "hexlify bs = concat (map (\<lambda>b. [hex_digit (unat b div 16), hex_digit (unat b mod 16)]) bs)"

definition own_mint_hex :: pystr where
  "own_mint_hex =
     (case build_inscription_script (build_mint_json (lit ''ZERO'') 100) of
        Inl e \<Rightarrow> []
      | Inr script \<Rightarrow> hexlify script)"

definition E_own_mint :: env where
  "E_own_mint = E_gate (PBool True) own_mint_hex"

definition unspent :: "rat \<Rightarrow> pyval" where
  "unspent a = PDict [(lit ''txid'', PStr (lit ''00'')), (lit ''vout'', PInt 0), (lit ''amount'', PFloat a)]"

definition E_balances :: env where
  "E_balances =
     \<lparr>world = (\<lambda>tr req. case req of
                 RpcPost i m ps \<Rightarrow>
                   if ps = [PInt 1, PInt 9999999, PList [PStr (lit ''a'')]] then
                     Json (PDict [(lit ''result'', PList [unspent 1]), (lit ''error'', PNone)])
                   else
                     Json (PDict [(lit ''result'', PList [unspent 2, unspent 3]), (lit ''error'', PNone)])
               | HttpGet url ps \<Rightarrow> Raises RequestException),
      float_of_str = (\<lambda>s. None), lower_other = (\<lambda>c. [c]),
      serialize_tx = (\<lambda>t v s a f d. Inr (lit ''0100''))\<rparr>"

definition wallet_a :: wallet where
  "wallet_a = \<lparr>wallet_address = lit ''a'', wallet_label = lit ''a''\<rparr>"

definition wallet_b :: wallet where
  "wallet_b = \<lparr>wallet_address = lit ''b'', wallet_label = lit ''b''\<rparr>"

definition sel_richest :: wallet_selector where
  "sel_richest = \<lparr>wallets = [wallet_a, wallet_b], strategy = lit ''richest''\<rparr>"

section \<open>Reading the payload back\<close>

text \<open>
  What a reader of the payload does, written independently of the encoder. A decimal
  numeral is an optional minus sign and digits, without leading zero and without
  \<open>-0\<close>. A JSON string (RFC 8259) is a quote, then characters and escapes, then the
  closing quote; its value is a sequence of UTF-16 code units, \<open>\uXXXX\<close> standing for
  one unit, and a code point above the basic plane is the two units of its surrogate pair.
\<close>

fun digits_value :: "nat \<Rightarrow> pystr \<Rightarrow> nat option" where
  "digits_value acc [] = Some acc"
| "digits_value acc (c # cs) =
     (if 48 \<le> c \<and> c \<le> 57 then digits_value (10 * acc + (c - 48)) cs else None)"

definition nat_of_str :: "pystr \<Rightarrow> nat option" where
  "nat_of_str s =
     (case s of
        [] \<Rightarrow> None
      | c # cs \<Rightarrow> if c = 48 \<and> cs \<noteq> [] then None else digits_value 0 s)"

definition int_of_str :: "pystr \<Rightarrow> int option" where
  "int_of_str s =
     (case s of
        [] \<Rightarrow> None
      | c # cs \<Rightarrow>
          if c = 45 then
            (case nat_of_str cs of
               None \<Rightarrow> None
             | Some n \<Rightarrow> if n = 0 then None else Some (- int n))
          else map_option int (nat_of_str s))"

definition utf16 :: "nat \<Rightarrow> nat list" where
  "utf16 c =
     (if c < 65536 then [c]
      else [55296 + (c - 65536) div 1024, 56320 + (c - 65536) mod 1024])"

definition simple_escape :: "nat \<Rightarrow> nat option" where
  "simple_escape e =
     (if e = 34 then Some 34
      else if e = 92 then Some 92
      else if e = 47 then Some 47
      else if e = 98 then Some 8
      else if e = 102 then Some 12
      else if e = 110 then Some 10
      else if e = 114 then Some 13
      else if e = 116 then Some 9
      else None)"

definition hex4 :: "nat \<Rightarrow> nat \<Rightarrow> nat \<Rightarrow> nat \<Rightarrow> nat option" where
  "hex4 a b c d =
     (case (hexval a, hexval b, hexval c, hexval d) of
        (Some w, Some x, Some y, Some z) \<Rightarrow> Some (4096 * w + 256 * x + 16 * y + z)
      | _ \<Rightarrow> None)"

text \<open>The characters after the opening quote, up to the closing quote, which is the last one.\<close>

fun json_body_units :: "pystr \<Rightarrow> nat list option" where
  "json_body_units [] = None"
| "json_body_units (c # cs) =
     (if c = 34 then (if cs = [] then Some [] else None)
      else if c = 92 then
        (case cs of
           [] \<Rightarrow> None
         | e # rest \<Rightarrow>
             if e = 117 then
               (case rest of
                  h1 # h2 # h3 # h4 # rest' \<Rightarrow>
                    (case hex4 h1 h2 h3 h4 of
                       None \<Rightarrow> None
                     | Some u \<Rightarrow> map_option (Cons u) (json_body_units rest'))
                | _ \<Rightarrow> None)
             else
               (case simple_escape e of
                  None \<Rightarrow> None
                | Some u \<Rightarrow> map_option (Cons u) (json_body_units rest)))
      else if c < 32 then None
      else map_option (Cons c) (json_body_units cs))"

definition json_string_units :: "pystr \<Rightarrow> nat list option" where
  "json_string_units s =
     (case s of [] \<Rightarrow> None | q # body \<Rightarrow> if q = 34 then json_body_units body else None)"

text \<open>A code point of a Python string.\<close>

definition code_point :: "nat \<Rightarrow> bool" where
  "code_point c \<longleftrightarrow> c < 1114112"

text \<open>Whether a value is a JSON object, and a node whose signing result is null.\<close>

definition is_dict :: "pyval \<Rightarrow> bool" where
  "is_dict v = (case v of PDict kvs \<Rightarrow> True | _ \<Rightarrow> False)"

definition E_null_sign :: env where
  "E_null_sign =
     \<lparr>world = (\<lambda>tr req. case req of
                 RpcPost i m ps \<Rightarrow>
                   if m = ''signrawtransaction'' then
                     Json (PDict [(lit ''result'', PNone), (lit ''error'', PNone)])
                   else Json (PDict [(lit ''result'', PStr (lit ''beef'')), (lit ''error'', PNone)])
               | HttpGet url ps \<Rightarrow> Raises RequestException),
      float_of_str = (\<lambda>s. None), lower_other = (\<lambda>c. [c]),
      serialize_tx = (\<lambda>t v s a f d. Inr (lit ''0100''))\<rparr>"

section \<open>Properties of the inscription payload\<close>

lemma hex_digit_ascii: "d < 16 \<Longrightarrow> hex_digit d < 128"
  by (simp add: hex_digit_def)

lemma u_escape_ascii: "x \<in> set (u_escape n) \<Longrightarrow> x < 128"
  by (auto simp: u_escape_def intro!: hex_digit_ascii)

lemma json_escape_char_ascii: "x \<in> set (json_escape_char c) \<Longrightarrow> x < 128"
  by (auto simp: json_escape_char_def dest: u_escape_ascii split: if_splits)

lemma json_str_ascii: "x \<in> set (json_str s) \<Longrightarrow> x < 128"
  by (auto simp: json_str_def dest: json_escape_char_ascii)

lemma json_items_ascii: "x \<in> set (json_items kvs) \<Longrightarrow> x < 128"
  by (induction kvs rule: json_items.induct) (auto dest: json_str_ascii)

lemma json_dumps_compact_ascii: "x \<in> set (json_dumps_compact kvs) \<Longrightarrow> x < 128"
  by (auto simp: json_dumps_compact_def dest: json_items_ascii)

lemma encode_ascii: "(\<And>x. x \<in> set s \<Longrightarrow> x < 128) \<Longrightarrow> encode s = Inr (map of_nat s)"
  by (induction s) (auto simp: utf8_char_def)

lemma json_str_plain:
  "(\<And>x. x \<in> set s \<Longrightarrow> 32 \<le> x \<and> x \<le> 126 \<and> x \<noteq> 34 \<and> x \<noteq> 92) \<Longrightarrow> json_str s = 34 # s @ [34]"
proof -
  assume h: "\<And>x. x \<in> set s \<Longrightarrow> 32 \<le> x \<and> x \<le> 126 \<and> x \<noteq> 34 \<and> x \<noteq> 92"
  have a: "map json_escape_char s = map (\<lambda>c. [c]) s"
    using h by (intro map_cong) (auto simp: json_escape_char_def)
  have b: "concat (map (\<lambda>c. [c]) s) = s" by (induction s) simp_all
  show ?thesis unfolding json_str_def a b ..
qed

lemma digits_plain: "x \<in> set (digits n) \<Longrightarrow> 48 \<le> x \<and> x \<le> 57"
proof (induction n arbitrary: x rule: digits.induct)
  case (1 n)
  show ?case
  proof (cases "n < 10")
    case True
    with "1.prems" show ?thesis by (simp add: digits.simps [of n])
  next
    case False
    with "1.prems" have "x \<in> set (digits (n div 10)) \<or> x = 48 + n mod 10"
      by (auto simp: digits.simps [of n])
    then show ?thesis
    proof
      assume "x \<in> set (digits (n div 10))"
      with False "1.IH" show ?thesis by blast
    next
      assume "x = 48 + n mod 10"
      moreover have "n mod 10 < 10" by simp
      ultimately show ?thesis by linarith
    qed
  qed
qed

lemma str_int_plain: "x \<in> set (str_int i) \<Longrightarrow> 32 \<le> x \<and> x \<le> 126 \<and> x \<noteq> 34 \<and> x \<noteq> 92"
  by (auto simp: str_int_def dest!: digits_plain split: if_splits)

lemma json_str_str_int: "json_str (str_int i) = 34 # str_int i @ [34]"
  by (rule json_str_plain) (rule str_int_plain)

lemma json_str_p: "json_str (lit ''p'') = lit ''\"p\"''"
  and json_str_zrc: "json_str (lit ''zrc-20'') = lit ''\"zrc-20\"''"
  and json_str_op: "json_str (lit ''op'') = lit ''\"op\"''"
  and json_str_mint: "json_str (lit ''mint'') = lit ''\"mint\"''"
  and json_str_tick: "json_str (lit ''tick'') = lit ''\"tick\"''"
  and json_str_amt: "json_str (lit ''amt'') = lit ''\"amt\"''"
  by (simp_all add: json_str_def lit_def json_escape_char_def)

lemma build_mint_json_layout:
  \<open>json_dumps_compact (mint_payload tick amt) =
     lit ''{"p":"zrc-20","op":"mint","tick":'' @ json_str tick
       @ lit '',"amt":"'' @ str_int amt @ lit ''"}''\<close>
  unfolding json_dumps_compact_def mint_payload_def json_items.simps
    json_str_p json_str_zrc json_str_op json_str_mint json_str_tick json_str_amt json_str_str_int
  by (simp add: lit_def)

lemma script_of_ascii:
  "(\<And>x. x \<in> set s \<Longrightarrow> x < 128) \<Longrightarrow>
   build_inscription_script s =
     Inr ([3] @ blit ''ord'' @ [17] @ blit ''application/json'' @ [0] @ map of_nat s)"
  by (simp add: build_inscription_script_def encode_ascii)

lemma str_int_100: "str_int 100 = lit ''100''"
  by (simp add: str_int_def digits.simps lit_def)

lemma json_str_plain_chars: "list_all plain_char s \<Longrightarrow> json_str s = 34 # s @ [34]"
  by (rule json_str_plain) (simp add: list_all_iff plain_char_def)

lemma hexval_hex_digit: "d < 16 \<Longrightarrow> hexval (hex_digit d) = Some d"
  by (auto simp: hexval_def hex_digit_def)

lemma split16: "(n::nat) = 16 * (n div 16) + n mod 16"
  by simp

lemma hex_sum:
  "4096 * (n div 4096 mod 16) + 256 * (n div 256 mod 16) + 16 * (n div 16 mod 16) + n mod 16
     = n mod 65536" for n :: nat
proof -
  have a: "n div 256 = n div 16 div 16" by (simp add: div_mult2_eq)
  have b: "n div 4096 = n div 16 div 16 div 16" by (simp add: div_mult2_eq)
  have c: "n mod 65536 = n mod 16 + 16 * (n div 16 mod 4096)"
    using mod_mult2_eq [of n 16 4096] by simp
  have d: "n div 16 mod 4096 = n div 16 mod 16 + 16 * (n div 16 div 16 mod 256)"
    using mod_mult2_eq [of "n div 16" 16 256] by simp
  have e: "n div 16 div 16 mod 256 = n div 16 div 16 mod 16 + 16 * (n div 16 div 16 div 16 mod 16)"
    using mod_mult2_eq [of "n div 16 div 16" 16 16] by simp
  show ?thesis unfolding a b c d e by simp
qed

lemma hex4_digits:
  assumes "n < 65536"
  shows "hex4 (hex_digit (n div 4096 mod 16)) (hex_digit (n div 256 mod 16))
              (hex_digit (n div 16 mod 16)) (hex_digit (n mod 16)) = Some n"
  using hex_sum [of n] assms by (simp add: hex4_def hexval_hex_digit)


lemma body_unit_escape:
  "hex4 a b c d = Some u \<Longrightarrow>
   json_body_units (92 # 117 # a # b # c # d # rest) = map_option (Cons u) (json_body_units rest)"
  by simp

lemma body_u_escape:
  "n < 65536 \<Longrightarrow> json_body_units (u_escape n @ rest) = map_option (Cons n) (json_body_units rest)"
  unfolding u_escape_def append_Cons append_Nil
  by (rule body_unit_escape) (rule hex4_digits)

lemma body_escape_char:
  assumes "code_point c"
  shows "json_body_units (json_escape_char c @ rest)
           = map_option ((@) (utf16 c)) (json_body_units rest)"
proof (cases "c < 65536")
  case True
  have u: "json_body_units (u_escape c @ rest) = map_option (Cons c) (json_body_units rest)"
    using True by (rule body_u_escape)
  have "json_body_units (json_escape_char c @ rest) = map_option (Cons c) (json_body_units rest)"
    unfolding json_escape_char_def using u True by (simp add: simple_escape_def)
  with True show ?thesis by (cases "json_body_units rest") (simp_all add: utf16_def)
next
  case False
  let ?hi = "55296 + (c - 65536) div 1024" and ?lo = "56320 + (c - 65536) mod 1024"
  from assms have "(c - 65536) div 1024 < 1024" by (simp add: code_point_def)
  then have m: "((c - 65536) div 1024) mod 1024 = (c - 65536) div 1024" by simp
  from assms False have hi: "?hi < 65536" and lo: "?lo < 65536"
    by (simp_all add: code_point_def)
  have "json_body_units (u_escape ?hi @ u_escape ?lo @ rest)
          = map_option (Cons ?hi) (map_option (Cons ?lo) (json_body_units rest))"
    by (simp only: body_u_escape [OF hi] body_u_escape [OF lo])
  moreover have "json_escape_char c = u_escape ?hi @ u_escape ?lo"
    using False by (simp add: json_escape_char_def m)
  ultimately show ?thesis
    using False by (cases "json_body_units rest") (simp_all add: utf16_def)
qed


lemma body_concat:
  "list_all code_point s \<Longrightarrow>
   json_body_units (concat (map json_escape_char s) @ rest)
     = map_option ((@) (concat (map utf16 s))) (json_body_units rest)"
proof (induction s)
  case Nil
  show ?case by (simp add: option.map_ident)
next
  case (Cons c s)
  then have c: "code_point c" and s: "list_all code_point s" by simp_all
  have "json_body_units (concat (map json_escape_char (c # s)) @ rest)
      = json_body_units (json_escape_char c @ (concat (map json_escape_char s) @ rest))"
    by simp
  also have "\<dots> = map_option ((@) (utf16 c))
      (json_body_units (concat (map json_escape_char s) @ rest))"
    by (rule body_escape_char [OF c])
  also have "\<dots> = map_option ((@) (utf16 c))
      (map_option ((@) (concat (map utf16 s))) (json_body_units rest))"
    by (simp only: Cons.IH [OF s])
  also have "\<dots> = map_option ((@) (concat (map utf16 (c # s)))) (json_body_units rest)"
    by (cases "json_body_units rest") simp_all
  finally show ?case .
qed

lemma json_string_units_json_str:
  "list_all code_point s \<Longrightarrow> json_string_units (json_str s) = Some (concat (map utf16 s))"
  using body_concat [of s "[34]"] by (simp add: json_string_units_def json_str_def)


lemma digits_value_append:
  "digits_value acc (xs @ ys) =
     (case digits_value acc xs of None \<Rightarrow> None | Some v \<Rightarrow> digits_value v ys)"
  by (induction xs arbitrary: acc) auto

lemma digits_value_digits: "digits_value 0 (digits n) = Some n"
proof (induction n rule: digits.induct)
  case (1 n)
  show ?case
  proof (cases "n < 10")
    case True
    then show ?thesis by (simp add: digits.simps [of n])
  next
    case False
    with "1.IH" have ih: "digits_value 0 (digits (n div 10)) = Some (n div 10)" by simp
    have "n mod 10 < 10" by simp
    then have d: "48 + n mod 10 \<le> 57" by linarith
    have "digits_value 0 (digits n) = digits_value (n div 10) [48 + n mod 10]"
      using False by (simp add: digits.simps [of n] digits_value_append ih)
    also have "\<dots> = Some (10 * (n div 10) + n mod 10)"
      using d by simp
    finally show ?thesis by simp
  qed
qed

lemma digits_nonempty: "digits n \<noteq> []"
  by (cases "n < 10") (simp_all add: digits.simps [of n])

lemma digits_zero: "digits 0 = [48]"
  by (simp add: digits.simps [of 0])

lemma hd_digits: "0 < n \<Longrightarrow> hd (digits n) \<noteq> 48"
proof (induction n rule: digits.induct)
  case (1 n)
  show ?case
  proof (cases "n < 10")
    case True
    with "1.prems" show ?thesis by (simp add: digits.simps [of n])
  next
    case False
    then have "0 < n div 10" by simp
    with False "1.IH" have "hd (digits (n div 10)) \<noteq> 48" by simp
    with False show ?thesis
      by (simp add: digits.simps [of n] digits_nonempty)
  qed
qed

lemma nat_of_str_digits: "nat_of_str (digits n) = Some n"
proof (cases "digits n")
  case Nil
  with digits_nonempty show ?thesis by blast
next
  case (Cons c cs)
  have "\<not> (c = 48 \<and> cs \<noteq> [])"
  proof (cases "n = 0")
    case True
    with Cons show ?thesis by (simp add: digits_zero)
  next
    case False
    with hd_digits [of n] Cons show ?thesis by simp
  qed
  with Cons digits_value_digits [of n] show ?thesis by (simp add: nat_of_str_def)
qed

lemma int_of_str_str_int: "int_of_str (str_int i) = Some i"
proof (cases "i < 0")
  case True
  then have "nat (- i) \<noteq> 0" by simp
  with True show ?thesis by (simp add: int_of_str_def str_int_def nat_of_str_digits)
next
  case False
  obtain c cs where d: "digits (nat i) = c # cs"
    using digits_nonempty [of "nat i"] by (cases "digits (nat i)") auto
  then have "c \<in> set (digits (nat i))" by simp
  then have "c \<noteq> 45" by (auto dest: digits_plain)
  with False d nat_of_str_digits [of "nat i"] show ?thesis
    by (simp add: int_of_str_def str_int_def)
qed


text \<open>
  C2. For every tick and every integer amount, the script built for a mint is the magic
  bytes \<open>03 'ord' 11\<close>, then \<open>application/json\<close>, then one zero byte, then the bytes of
  the compact JSON object with the keys \<open>p\<close>, \<open>op\<close>, \<open>tick\<close>, \<open>amt\<close> in this order
  and no whitespace. The amount is written as the decimal numeral that reads back as the
  amount. The tick is written as a JSON string whose value is the tick (its UTF-16 code
  units), and which is the tick itself between quotes when the tick is made of printable
  ASCII without quote or backslash. This script is what the transaction builder hands to
  the serialiser, and it is the one of the helper \<open>build_mint_json\<close>. For the tick
  ZERO and the amount 100 the bytes are those of the specification. Samples: the
  numerals of -42 and 0, a tick holding a quote, a backslash, a newline, an accented
  letter and a code point above the basic plane, and one holding the control characters
  with a short escape, two characters without one and a code point with the hex digits
  a, b, c and f.
\<close>

theorem inscription_script_bytes:
  \<open>build_inscription_script (json_dumps_compact (mint_payload tick amt)) =
      Inr ([3] @ blit ''ord'' @ [17] @ blit ''application/json'' @ [0] @
           map of_nat (lit ''{"p":"zrc-20","op":"mint","tick":'' @ json_str tick
                       @ lit '',"amt":"'' @ str_int amt @ lit ''"}''))
   \<and> build_mint_json tick amt = json_dumps_compact (mint_payload tick amt)
   \<and> int_of_str (str_int amt) = Some amt
   \<and> (list_all code_point tick \<longrightarrow>
        json_string_units (json_str tick) = Some (concat (map utf16 tick)))
   \<and> (list_all plain_char tick \<longrightarrow> json_str tick = lit ''"'' @ tick @ lit ''"'')
   \<and> (lx (txid u) = Inr t \<and> 0 < amount u - fee \<longrightarrow>
        build_transaction E u dest (json_dumps_compact (mint_payload tick amt)) fee =
          serialize_tx E t (vout u)
            ([3] @ blit ''ord'' @ [17] @ blit ''application/json'' @ [0] @
             map of_nat (lit ''{"p":"zrc-20","op":"mint","tick":'' @ json_str tick
                         @ lit '',"amt":"'' @ str_int amt @ lit ''"}''))
            (amount u) fee dest)
   \<and> build_inscription_script (build_mint_json (lit ''ZERO'') 100) =
      Inr ([3] @ blit ''ord'' @ [17] @ blit ''application/json'' @ [0] @
           blit ''{"p":"zrc-20","op":"mint","tick":"ZERO","amt":"100"}'')
   \<and> build_inscription_script (build_mint_json [90, 69, 82, 79] 100) =
      Inr [3, 111, 114, 100, 17, 97, 112, 112, 108, 105, 99, 97, 116, 105, 111, 110, 47, 106,
           115, 111, 110, 0, 123, 34, 112, 34, 58, 34, 122, 114, 99, 45, 50, 48, 34, 44, 34,
           111, 112, 34, 58, 34, 109, 105, 110, 116, 34, 44, 34, 116, 105, 99, 107, 34, 58, 34,
           90, 69, 82, 79, 34, 44, 34, 97, 109, 116, 34, 58, 34, 49, 48, 48, 34, 125]
   \<and> str_int (- 42) = [45, 52, 50] \<and> str_int 0 = [48]
   \<and> json_str [34, 92, 10, 233, 128512] =
       [34, 92, 34, 92, 92, 92, 110, 92, 117, 48, 48, 101, 57,
        92, 117, 100, 56, 51, 100, 92, 117, 100, 101, 48, 48, 34]
   \<and> json_str [8, 12, 10, 13, 9, 1, 127, 43983] =
       [34, 92, 98, 92, 102, 92, 110, 92, 114, 92, 116, 92, 117, 48, 48, 48, 49,
        92, 117, 48, 48, 55, 102, 92, 117, 97, 98, 99, 102, 34]\<close>
proof -
  let ?js = "json_dumps_compact (mint_payload tick amt)"
  have script: \<open>build_inscription_script ?js =
      Inr ([3] @ blit ''ord'' @ [17] @ blit ''application/json'' @ [0] @
           map of_nat (lit ''{"p":"zrc-20","op":"mint","tick":'' @ json_str tick
                       @ lit '',"amt":"'' @ str_int amt @ lit ''"}''))\<close>
    unfolding build_mint_json_layout [symmetric]
    by (rule script_of_ascii) (rule json_dumps_compact_ascii)
  have helper: "build_mint_json tick amt = ?js"
    by (simp add: build_mint_json_def)
  have numeral: "int_of_str (str_int amt) = Some amt"
    by (rule int_of_str_str_int)
  have units: "list_all code_point tick \<longrightarrow>
        json_string_units (json_str tick) = Some (concat (map utf16 tick))"
    by (simp add: json_string_units_json_str)
  have plain: \<open>list_all plain_char tick \<longrightarrow> json_str tick = lit ''"'' @ tick @ lit ''"''\<close>
    by (simp add: json_str_plain_chars lit_def)
  have build: \<open>lx (txid u) = Inr t \<and> 0 < amount u - fee \<longrightarrow>
        build_transaction E u dest ?js fee =
          serialize_tx E t (vout u)
            ([3] @ blit ''ord'' @ [17] @ blit ''application/json'' @ [0] @
             map of_nat (lit ''{"p":"zrc-20","op":"mint","tick":'' @ json_str tick
                         @ lit '',"amt":"'' @ str_int amt @ lit ''"}''))
            (amount u) fee dest\<close>
    by (simp add: build_transaction_def script Let_def)
  have zero: \<open>build_inscription_script (build_mint_json (lit ''ZERO'') 100) =
      Inr ([3] @ blit ''ord'' @ [17] @ blit ''application/json'' @ [0] @
           blit ''{"p":"zrc-20","op":"mint","tick":"ZERO","amt":"100"}'')\<close>
  proof -
    have "list_all plain_char (lit ''ZERO'')"
      by (simp add: lit_def plain_char_def)
    then have "json_str (lit ''ZERO'') = 34 # lit ''ZERO'' @ [34]"
      by (rule json_str_plain_chars)
    then have \<open>json_dumps_compact (mint_payload (lit ''ZERO'') 100) =
        lit ''{"p":"zrc-20","op":"mint","tick":"ZERO","amt":"100"}''\<close>
      by (simp add: build_mint_json_layout str_int_100 lit_def)
    moreover have \<open>map of_nat (lit ''{"p":"zrc-20","op":"mint","tick":"ZERO","amt":"100"}'')
        = (blit ''{"p":"zrc-20","op":"mint","tick":"ZERO","amt":"100"}'')\<close>
      by (simp add: lit_def blit_def)
    moreover have \<open>build_inscription_script (json_dumps_compact (mint_payload (lit ''ZERO'') 100)) =
      Inr ([3] @ blit ''ord'' @ [17] @ blit ''application/json'' @ [0] @
           map of_nat (json_dumps_compact (mint_payload (lit ''ZERO'') 100)))\<close>
      by (rule script_of_ascii) (rule json_dumps_compact_ascii)
    ultimately show ?thesis by (simp only: build_mint_json_def)
  qed
  have bytes: "build_inscription_script (build_mint_json [90, 69, 82, 79] 100) =
      Inr [3, 111, 114, 100, 17, 97, 112, 112, 108, 105, 99, 97, 116, 105, 111, 110, 47, 106,
           115, 111, 110, 0, 123, 34, 112, 34, 58, 34, 122, 114, 99, 45, 50, 48, 34, 44, 34,
           111, 112, 34, 58, 34, 109, 105, 110, 116, 34, 44, 34, 116, 105, 99, 107, 34, 58, 34,
           90, 69, 82, 79, 34, 44, 34, 97, 109, 116, 34, 58, 34, 49, 48, 48, 34, 125]"
  proof -
    have "lit ''ZERO'' = [90, 69, 82, 79]" by (simp add: lit_def)
    with zero show ?thesis by (simp add: blit_def)
  qed
  have samples: "str_int (- 42) = [45, 52, 50] \<and> str_int 0 = [48]"
    by (simp add: str_int_def digits.simps)
  have escapes: "json_str [34, 92, 10, 233, 128512] =
       [34, 92, 34, 92, 92, 92, 110, 92, 117, 48, 48, 101, 57,
        92, 117, 100, 56, 51, 100, 92, 117, 100, 101, 48, 48, 34]"
    by (simp add: json_str_def json_escape_char_def u_escape_def hex_digit_def)
  have controls: "json_str [8, 12, 10, 13, 9, 1, 127, 43983] =
       [34, 92, 98, 92, 102, 92, 110, 92, 114, 92, 116, 92, 117, 48, 48, 48, 49,
        92, 117, 48, 48, 55, 102, 92, 117, 97, 98, 99, 102, 34]"
    by (simp add: json_str_def json_escape_char_def u_escape_def hex_digit_def)
  from script helper numeral units plain build zero bytes samples escapes controls
  show ?thesis by blast
qed

theorem inscription_script_bytes_witness:
  \<open>list_all plain_char (lit ''Zero'')
   \<and> json_str (lit ''Zero'') = lit ''"Zero"''
   \<and> list_all code_point [90, 233, 128512]
   \<and> json_string_units (json_str [90, 233, 128512]) = Some [90, 233, 55357, 56832]
   \<and> lx (PStr (lit ''00ff'')) = Inr [255, 0]
   \<and> build_transaction E_down
        \<lparr>txid = PStr (lit ''00ff''), vout = PInt 0, amount = 1, address = PNone\<rparr>
        (lit ''t1'') (json_dumps_compact (mint_payload (lit ''Zero'') 7)) (1 / 10000)
      = Inr (lit ''0100'')\<close>
proof -
  have p: "list_all plain_char (lit ''Zero'')"
    by (simp add: lit_def plain_char_def)
  have c: "list_all code_point [90, 233, 128512]"
    by (simp add: code_point_def)
  have u: "concat (map utf16 [90, 233, 128512]) = [90, 233, 55357, 56832]"
    by (simp add: utf16_def)
  have l: "lx (PStr (lit ''00ff'')) = Inr [255, 0]"
    by (simp add: lx_def lit_def utf8_char_def hexval_def)
  let ?u = "\<lparr>txid = PStr (lit ''00ff''), vout = PInt 0, amount = 1, address = PNone\<rparr>"
  note T = inscription_script_bytes [of "lit ''Zero''" 7 ?u "[255, 0]" "1 / 10000" E_down "lit ''t1''"]
  note T5 = T [THEN conjunct2, THEN conjunct2, THEN conjunct2, THEN conjunct2, THEN conjunct1]
  note T6 = T [THEN conjunct2, THEN conjunct2, THEN conjunct2, THEN conjunct2, THEN conjunct2,
      THEN conjunct1]
  from T5 p have \<open>json_str (lit ''Zero'') = lit ''"'' @ lit ''Zero'' @ lit ''"''\<close> by blast
  then have a: \<open>json_str (lit ''Zero'') = lit ''"Zero"''\<close>
    by (simp add: lit_def)
  have pre: "lx (txid ?u) = Inr [255, 0] \<and> 0 < amount ?u - 1 / 10000"
    using l by simp
  from T6 pre
  have \<open>build_transaction E_down ?u (lit ''t1'') (json_dumps_compact (mint_payload (lit ''Zero'') 7))
              (1 / 10000) =
          serialize_tx E_down [255, 0] (vout ?u)
            ([3] @ blit ''ord'' @ [17] @ blit ''application/json'' @ [0] @
             map of_nat (lit ''{"p":"zrc-20","op":"mint","tick":'' @ json_str (lit ''Zero'')
                         @ lit '',"amt":"'' @ str_int 7 @ lit ''"}''))
            (amount ?u) (1 / 10000) (lit ''t1'')\<close>
    by (rule mp)
  then have b: "build_transaction E_down ?u (lit ''t1'')
      (json_dumps_compact (mint_payload (lit ''Zero'') 7)) (1 / 10000) = Inr (lit ''0100'')"
    by (simp add: E_down_def)
  note U = inscription_script_bytes [of "[90, 233, 128512]" 7 ?u "[255, 0]" "1 / 10000" E_down "lit ''t1''"]
  note U4 = U [THEN conjunct2, THEN conjunct2, THEN conjunct2, THEN conjunct1]
  from U4 c have "json_string_units (json_str [90, 233, 128512])
      = Some (concat (map utf16 [90, 233, 128512]))" by (rule mp)
  then have d: "json_string_units (json_str [90, 233, 128512]) = Some [90, 233, 55357, 56832]"
    unfolding u .
  from p a c d l b show ?thesis by blast
qed

section \<open>Properties of the RPC client\<close>

lemma visits_append: "visits (xs @ ys) = visits xs @ visits ys"
  by (induction xs rule: visits.induct) simp_all

lemma replay_append:
  "replay n i (vs @ ws) = (case replay n i vs of None \<Rightarrow> None | Some j \<Rightarrow> replay n j ws)"
  by (induction vs arbitrary: i) auto

lemma visits_log [simp]: "visits (trace (log lvl msg st)) = visits (trace st)"
  by (simp add: log_def visits_append)

lemma index_log [simp]: "index (log lvl msg st) = index st"
  by (simp add: log_def)

lemma visits_switch_node [simp]: "visits (trace (switch_node cl st)) = visits (trace st)"
  by (simp add: switch_node_def log_def visits_append)

lemma index_switch_node [simp]:
  "index (switch_node cl st) = (index st + 1) mod length (nodes cl)"
  by (simp add: switch_node_def log_def)

lemma perform_request_ok_chained:
  "chained cl i0 st \<Longrightarrow> perform_request E cl m ps st = (Inr v, st1) \<Longrightarrow> chained cl i0 st1"
  by (auto simp: chained_def perform_request_def Let_def visits_append replay_append)

lemma perform_request_fail_chained:
  "chained cl i0 st \<Longrightarrow> perform_request E cl m ps st = (Inl e, st1) \<Longrightarrow>
   chained cl i0 (switch_node cl (log lvl msg st1))"
proof -
  assume c: "chained cl i0 st" and p: "perform_request E cl m ps st = (Inl e, st1)"
  from c have "0 < length (nodes cl)" by (auto simp: chained_def)
  then have "Suc (index st) mod length (nodes cl) < length (nodes cl)" by simp
  with c p show ?thesis
    by (auto simp: chained_def perform_request_def Let_def visits_append replay_append)
qed

lemma call_loop_chained:
  "chained cl i0 st \<Longrightarrow> chained cl i0 (snd (call_loop E cl m ps k st))"
proof (induction k arbitrary: st)
  case 0
  then show ?case
    by (auto split: prod.splits sum.splits
        dest: perform_request_ok_chained perform_request_fail_chained)
next
  case (Suc k)
  show ?case
  proof (cases "perform_request E cl m ps st")
    case (Pair r st1)
    show ?thesis
    proof (cases r)
      case (Inl e)
      with Pair Suc.prems
      have c: "chained cl i0 (switch_node cl (log ERROR ''RPC error on %s: %s'' st1))"
        by (auto dest: perform_request_fail_chained)
      from Suc.IH [OF c] c Pair Inl show ?thesis by (simp add: Let_def)
    next
      case (Inr v)
      with Pair Suc.prems show ?thesis by (auto dest: perform_request_ok_chained)
    qed
  qed
qed

lemma call_chained: "chained cl i0 st \<Longrightarrow> chained cl i0 (snd (call E cl m ps st))"
  by (simp add: call_def call_loop_chained)

lemma run_calls_chained: "chained cl i0 st \<Longrightarrow> chained cl i0 (run_calls E cl cs st)"
  by (induction cs arbitrary: st) (auto simp: call_chained)

lemma replay_range:
  "replay n i vs = Some f \<Longrightarrow> i < n \<Longrightarrow> f < n \<and> list_all (\<lambda>v. fst v < n) vs"
  by (induction vs arbitrary: i) (auto split: if_splits)

lemma replay_fails:
  "list_all snd w \<Longrightarrow> replay n i w = Some f \<Longrightarrow> i < n \<Longrightarrow>
   map fst w = map (\<lambda>k. (i + k) mod n) [0..<length w] \<and> f = (i + length w) mod n"
proof (induction w arbitrary: i)
  case Nil
  then show ?case by simp
next
  case (Cons v w)
  obtain j b where v: "v = (j, b)" by (cases v)
  from Cons.prems v have b: "b" and j: "j = i"
    and r: "replay n ((i + 1) mod n) w = Some f" and all: "list_all snd w"
    by (auto split: if_splits)
  from Cons.prems have n: "0 < n" by simp
  from Cons.IH [OF all r] n
  have ih: "map fst w = map (\<lambda>k. ((i + 1) mod n + k) mod n) [0..<length w]"
    and f: "f = ((i + 1) mod n + length w) mod n" by simp_all
  have shift: "\<And>k. ((i + 1) mod n + k) mod n = (i + Suc k) mod n"
    by (simp add: mod_add_left_eq)
  have "[0..<length (v # w)] = 0 # map Suc [0..<length w]"
    by (simp add: upt_conv_Cons map_Suc_upt del: upt_Suc)
  then have "map (\<lambda>k. (i + k) mod n) [0..<length (v # w)]
           = i mod n # map (\<lambda>k. (i + Suc k) mod n) [0..<length w]"
    by (simp add: comp_def del: upt_Suc)
  with ih shift v j Cons.prems(3) f show ?case by simp
qed

lemma rotation_set: "0 < (n::nat) \<Longrightarrow> (\<lambda>k. (i + k) mod n) ` {0..<n} = {0..<n}"
proof (intro equalityI subsetI)
  fix x assume "0 < n" "x \<in> (\<lambda>k. (i + k) mod n) ` {0..<n}"
  then show "x \<in> {0..<n}" by auto
next
  fix x assume n: "0 < n" and "x \<in> {0..<n}"
  then have x: "x < n" by simp
  let ?k = "(x + (n - i mod n)) mod n"
  have "(i + ?k) mod n = (i + (x + (n - i mod n))) mod n"
    by (simp add: mod_add_right_eq)
  also have "\<dots> = (i mod n + (x + (n - i mod n))) mod n"
    by (rule mod_add_left_eq [symmetric])
  also have "i mod n + (x + (n - i mod n)) = x + n"
  proof -
    have "i mod n < n" using n by simp
    then show ?thesis by linarith
  qed
  also have "(x + n) mod n = x" using x by simp
  finally have "(i + ?k) mod n = x" .
  moreover have "?k \<in> {0..<n}" using n by simp
  ultimately show "x \<in> (\<lambda>k. (i + k) mod n) ` {0..<n}" by (metis imageI)
qed

lemma rotation_distinct: "0 < (n::nat) \<Longrightarrow> distinct (map (\<lambda>k. (i + k) mod n) [0..<n])"
proof (rule card_distinct)
  assume "0 < n"
  then show "card (set (map (\<lambda>k. (i + k) mod n) [0..<n])) = length (map (\<lambda>k. (i + k) mod n) [0..<n])"
    by (simp add: rotation_set)
qed

lemma init_chained: "RPCClient_init ns retry = Inr cl \<Longrightarrow> chained cl 0 init_state"
  by (auto simp: RPCClient_init_def chained_def init_state_def split: if_splits)

lemma window_round_robin:
  assumes c: "chained cl i0 st" and i0: "i0 < length (nodes cl)"
    and v: "visits (trace st) = pre @ w @ post"
    and len: "length w = length (nodes cl)" and fails: "list_all snd w"
  shows "\<exists>s < length (nodes cl).
           map fst w = map (\<lambda>k. (s + k) mod length (nodes cl)) [0..<length (nodes cl)]
           \<and> list_all (\<lambda>v. fst v = s) (take 1 post)"
proof -
  let ?n = "length (nodes cl)"
  from c v have r: "replay ?n i0 (pre @ w @ post) = Some (index st)"
    by (simp add: chained_def)
  then obtain s where s: "replay ?n i0 pre = Some s" and r2: "replay ?n s (w @ post) = Some (index st)"
    by (auto simp: replay_append split: option.splits)
  from replay_range [OF s i0] have sn: "s < ?n" by simp
  from r2 obtain f where f: "replay ?n s w = Some f" and r3: "replay ?n f post = Some (index st)"
    by (auto simp: replay_append split: option.splits)
  from replay_fails [OF fails f sn] len sn
  have m: "map fst w = map (\<lambda>k. (s + k) mod ?n) [0..<?n]" and fs: "f = s"
    by simp_all
  from r3 fs have "list_all (\<lambda>v. fst v = s) (take 1 post)"
    by (cases post) (auto split: if_splits)
  with sn m show ?thesis by blast
qed

text \<open>
  C3. A client built from a non-empty node list of length N keeps its index below N after
  every call, and every request goes to a node below N; switching node adds one modulo N.
  In the sequence of its requests, any N consecutive failed ones go to the nodes
  \<open>s, s + 1, \<dots>\<close> modulo N: every node exactly once, and the request after them,
  if any, goes to \<open>s\<close> again.
\<close>

theorem rpc_round_robin:
  assumes init: "RPCClient_init ns retry = Inr cl"
    and run: "st = run_calls E cl cs init_state"
  shows "index st < length ns
       \<and> list_all (\<lambda>v. fst v < length ns) (visits (trace st))
       \<and> index (switch_node cl st) = (index st + 1) mod length ns
       \<and> index (switch_node cl st) < length ns
       \<and> (\<forall>pre w post.
            visits (trace st) = pre @ w @ post \<and> length w = length ns \<and> list_all snd w \<longrightarrow>
            (\<exists>s < length ns.
               map fst w = map (\<lambda>k. (s + k) mod length ns) [0..<length ns]
               \<and> list_all (\<lambda>v. fst v = s) (take 1 post))
            \<and> distinct (map fst w) \<and> set (map fst w) = {0..<length ns})"
proof -
  from init have ns: "nodes cl = ns" and pos: "0 < length ns"
    by (auto simp: RPCClient_init_def split: if_splits)
  from init_chained [OF init] run have c: "chained cl 0 st"
    by (simp add: run_calls_chained)
  then have idx: "index st < length ns"
    and rep: "replay (length ns) 0 (visits (trace st)) = Some (index st)"
    by (simp_all add: chained_def ns)
  from replay_range [OF rep pos] have rng: "list_all (\<lambda>v. fst v < length ns) (visits (trace st))"
    by simp
  have sw: "index (switch_node cl st) = (index st + 1) mod length ns"
    by (simp add: ns)
  have sw2: "index (switch_node cl st) < length ns"
    using pos by (simp add: ns)
  have win: "(\<exists>s < length ns.
               map fst w = map (\<lambda>k. (s + k) mod length ns) [0..<length ns]
               \<and> list_all (\<lambda>v. fst v = s) (take 1 post))
            \<and> distinct (map fst w) \<and> set (map fst w) = {0..<length ns}"
    if h: "visits (trace st) = pre @ w @ post \<and> length w = length ns \<and> list_all snd w"
    for pre w post
  proof -
    from h have v: "visits (trace st) = pre @ w @ post" and len: "length w = length (nodes cl)"
      and fails: "list_all snd w" by (simp_all add: ns)
    from pos have i0: "0 < length (nodes cl)" by (simp add: ns)
    from window_round_robin [OF c i0 v len fails]
    obtain s where s: "s < length ns"
      and m: "map fst w = map (\<lambda>k. (s + k) mod length ns) [0..<length ns]"
      and p: "list_all (\<lambda>v. fst v = s) (take 1 post)"
      by (auto simp: ns)
    have "distinct (map fst w)" unfolding m by (rule rotation_distinct [OF pos])
    moreover have "set (map fst w) = {0..<length ns}"
      unfolding m using rotation_set [OF pos, of s] by simp
    ultimately show ?thesis using s m p by blast
  qed
  from idx rng sw sw2 win show ?thesis by blast
qed

lemma visits_down:
  "visits (trace (run_calls E_down rpc2 [(''getblockcount'', [])] init_state)) = [(0, True), (1, True), (0, True)]"
  by code_simp

theorem rpc_round_robin_witness:
  "RPCClient_init nodes2 3 = Inr rpc2
   \<and> visits (trace (run_calls E_down rpc2 [(''getblockcount'', [])] init_state))
       = [] @ [(0, True), (1, True)] @ [(0, True)]
   \<and> index (run_calls E_down rpc2 [(''getblockcount'', [])] init_state) < 2
   \<and> distinct (map fst [(0::nat, True), (1, True)])
   \<and> set (map fst [(0::nat, True), (1, True)]) = {0..<2}"
proof -
  have i: "RPCClient_init nodes2 3 = Inr rpc2"
    by (simp add: RPCClient_init_def rpc2_def nodes2_def)
  have l: "length nodes2 = 2" by (simp add: nodes2_def)
  have v: "visits (trace (run_calls E_down rpc2 [(''getblockcount'', [])] init_state))
       = [] @ [(0, True), (1, True)] @ [(0, True)]"
    unfolding visits_down by simp
  from rpc_round_robin [OF i refl, of E_down "[(''getblockcount'', [])]"]
  have "index (run_calls E_down rpc2 [(''getblockcount'', [])] init_state) < 2
    \<and> (\<forall>pre w post.
            visits (trace (run_calls E_down rpc2 [(''getblockcount'', [])] init_state)) = pre @ w @ post
              \<and> length w = 2 \<and> list_all snd w \<longrightarrow>
            distinct (map fst w) \<and> set (map fst w) = {0..<2})"
    unfolding l by blast
  then have a: "index (run_calls E_down rpc2 [(''getblockcount'', [])] init_state) < 2"
    and b: "\<forall>pre w post.
            visits (trace (run_calls E_down rpc2 [(''getblockcount'', [])] init_state)) = pre @ w @ post
              \<and> length w = 2 \<and> list_all snd w \<longrightarrow>
            distinct (map fst w) \<and> set (map fst w) = {0..<2}"
    by blast+
  from b [rule_format, of "[]" "[(0, True), (1, True)]" "[(0, True)]"] v
  have "distinct (map fst [(0::nat, True), (1, True)])
         \<and> set (map fst [(0::nat, True), (1, True)]) = {0..<2}"
    by simp
  with a i v show ?thesis by blast
qed

section \<open>Properties of the fee estimator\<close>

lemma log_frame: "(\<And>l s. \<not> P (Log l s)) \<Longrightarrow> filter P (trace (log lvl msg st)) = filter P (trace st)"
  by (simp add: log_def)

lemma switch_node_frame:
  "(\<And>l s. \<not> P (Log l s)) \<Longrightarrow> filter P (trace (switch_node cl st)) = filter P (trace st)"
  by (simp add: switch_node_def log_def)

lemma perform_request_frame:
  "(\<And>i r. \<not> P (IO (RpcPost i m ps) r)) \<Longrightarrow> perform_request E cl m ps st = (res, st1) \<Longrightarrow>
   filter P (trace st1) = filter P (trace st)"
  by (auto simp: perform_request_def Let_def split: if_splits)

lemma call_loop_frame:
  assumes rpc: "\<And>i r. \<not> P (IO (RpcPost i m ps) r)" and lg: "\<And>l s. \<not> P (Log l s)"
  shows "call_loop E cl m ps k st = (res, st') \<Longrightarrow> filter P (trace st') = filter P (trace st)"
proof (induction k arbitrary: st)
  case 0
  obtain r st1 where p: "perform_request E cl m ps st = (r, st1)"
    by (cases "perform_request E cl m ps st")
  from perform_request_frame [of P m ps, OF rpc p]
  have f: "filter P (trace st1) = filter P (trace st)" .
  from 0 p f show ?case
    by (cases r) (auto simp: switch_node_frame [of P, OF lg] log_frame [of P, OF lg])
next
  case (Suc k)
  obtain r st1 where p: "perform_request E cl m ps st = (r, st1)"
    by (cases "perform_request E cl m ps st")
  from perform_request_frame [of P m ps, OF rpc p]
  have f: "filter P (trace st1) = filter P (trace st)" .
  show ?case
  proof (cases r)
    case (Inr v)
    with Suc.prems p f show ?thesis by simp
  next
    case (Inl e)
    let ?st2 = "switch_node cl (log ERROR ''RPC error on %s: %s'' st1)"
    have g: "filter P (trace ?st2) = filter P (trace st)"
      by (simp add: switch_node_frame [of P, OF lg] log_frame [of P, OF lg] f)
    show ?thesis
    proof (cases "retryable e")
      case True
      with Suc.prems p Inl have "call_loop E cl m ps k ?st2 = (res, st')" by (simp add: Let_def)
      from Suc.IH [OF this] g show ?thesis by simp
    next
      case False
      with Suc.prems p Inl g show ?thesis by (auto simp: Let_def)
    qed
  qed
qed

lemma call_frame:
  "(\<And>i r. \<not> P (IO (RpcPost i m ps) r)) \<Longrightarrow> (\<And>l s. \<not> P (Log l s)) \<Longrightarrow>
   call E cl m ps st = (res, st') \<Longrightarrow> filter P (trace st') = filter P (trace st)"
  unfolding call_def by (rule call_loop_frame)

lemma estimate_from_rpc_frame:
  assumes rpc: "\<And>i ps r. \<not> P (IO (RpcPost i ''estimatesmartfee'' ps) r)"
    and lg: "\<And>l s. \<not> P (Log l s)"
    and e: "estimate_from_rpc E cl fe st = (res, st')"
  shows "filter P (trace st') = filter P (trace st)"
proof -
  obtain r st1 where c: "call E cl ''estimatesmartfee'' [PInt 2] st = (r, st1)"
    by (cases "call E cl ''estimatesmartfee'' [PInt 2] st")
  from call_frame [of P, OF rpc lg c] have f: "filter P (trace st1) = filter P (trace st)" .
  from e c f show ?thesis
    by (auto simp: estimate_from_rpc_def estimate_from_rpc_try_def Let_def log_frame [of P, OF lg]
        split: sum.splits if_splits)
qed

lemma estimate_from_rpc_total: "\<exists>r st1. estimate_from_rpc E cl fe st = (Inr r, st1)"
  by (auto simp: estimate_from_rpc_def split: prod.splits sum.splits)

lemma estimate_from_api_total: "\<exists>r st1. estimate_from_api E fe st = (Inr r, st1)"
  by (auto simp: estimate_from_api_def split: prod.splits sum.splits option.splits)

lemma fee_loop_falsy:
  "source st = (Inr r, st1) \<Longrightarrow> falsy r \<Longrightarrow> fee_loop (source # rest) dflt st = fee_loop rest dflt st1"
  by (auto simp: falsy_def split: option.splits)

lemma fee_loop_truthy:
  "source st = (Inr (Some f), st1) \<Longrightarrow> f \<noteq> 0 \<Longrightarrow>
   fee_loop (source # rest) dflt st = (Inr f, log DEBUG ''Selected fee %.8f from %s'' st1)"
  by simp

text \<open>
  C4. \<open>estimate\<close> always returns a fee and never raises. With dynamic estimation
  disabled it returns the configured default at once, with no effect. Otherwise, when the
  node source returns a truthy fee, that fee is returned and the state is the one the node
  source left, plus the debug record: no HTTP request is made and the default is not
  looked at. When the node source returns nothing (it failed, or gave no fee) and the
  external source returns a truthy fee, that fee is returned. When both return nothing,
  the default is returned.
\<close>

theorem estimate_cascade:
  "(\<not> dynamic fe \<longrightarrow> estimate E cl fe st = (Inr (default_fee fe), st))
   \<and> (dynamic fe \<and> estimate_from_rpc E cl fe st = (Inr (Some f), st1) \<and> f \<noteq> 0 \<longrightarrow>
        estimate E cl fe st = (Inr f, log DEBUG ''Selected fee %.8f from %s'' st1)
        \<and> http_gets (trace (snd (estimate E cl fe st))) = http_gets (trace st))
   \<and> (dynamic fe \<and> estimate_from_rpc E cl fe st = (Inr r, st1) \<and> falsy r
        \<and> estimate_from_api E fe st1 = (Inr (Some f), st2) \<and> f \<noteq> 0 \<longrightarrow>
        estimate E cl fe st = (Inr f, log DEBUG ''Selected fee %.8f from %s'' st2))
   \<and> (dynamic fe \<and> estimate_from_rpc E cl fe st = (Inr r, st1) \<and> falsy r
        \<and> estimate_from_api E fe st1 = (Inr r', st2) \<and> falsy r' \<longrightarrow>
        fst (estimate E cl fe st) = Inr (default_fee fe))
   \<and> (\<exists>fee st'. estimate E cl fe st = (Inr fee, st'))"
proof -
  have a: "\<not> dynamic fe \<longrightarrow> estimate E cl fe st = (Inr (default_fee fe), st)"
    by (simp add: estimate_def)
  have b: "dynamic fe \<and> estimate_from_rpc E cl fe st = (Inr (Some f), st1) \<and> f \<noteq> 0 \<longrightarrow>
        estimate E cl fe st = (Inr f, log DEBUG ''Selected fee %.8f from %s'' st1)
        \<and> http_gets (trace (snd (estimate E cl fe st))) = http_gets (trace st)"
  proof
    assume h: "dynamic fe \<and> estimate_from_rpc E cl fe st = (Inr (Some f), st1) \<and> f \<noteq> 0"
    then have e: "estimate E cl fe st = (Inr f, log DEBUG ''Selected fee %.8f from %s'' st1)"
      by (simp add: estimate_def)
    from h have "estimate_from_rpc E cl fe st = (Inr (Some f), st1)" by simp
    then have "http_gets (trace st1) = http_gets (trace st)"
      unfolding http_gets_def by (rule estimate_from_rpc_frame [rotated 2]) simp_all
    with e show "estimate E cl fe st = (Inr f, log DEBUG ''Selected fee %.8f from %s'' st1)
        \<and> http_gets (trace (snd (estimate E cl fe st))) = http_gets (trace st)"
      by (simp add: http_gets_def log_def)
  qed
  have c: "dynamic fe \<and> estimate_from_rpc E cl fe st = (Inr r, st1) \<and> falsy r
        \<and> estimate_from_api E fe st1 = (Inr (Some f), st2) \<and> f \<noteq> 0 \<longrightarrow>
        estimate E cl fe st = (Inr f, log DEBUG ''Selected fee %.8f from %s'' st2)"
    by (auto simp: estimate_def falsy_def split: option.splits)
  have d: "dynamic fe \<and> estimate_from_rpc E cl fe st = (Inr r, st1) \<and> falsy r
        \<and> estimate_from_api E fe st1 = (Inr r', st2) \<and> falsy r' \<longrightarrow>
        fst (estimate E cl fe st) = Inr (default_fee fe)"
    by (auto simp: estimate_def falsy_def split: option.splits)
  have e: "\<exists>fee st'. estimate E cl fe st = (Inr fee, st')"
  proof (cases "dynamic fe")
    case False
    then show ?thesis by (simp add: estimate_def)
  next
    case True
    obtain r st1 where r: "estimate_from_rpc E cl fe st = (Inr r, st1)"
      using estimate_from_rpc_total by blast
    obtain r' st2 where r': "estimate_from_api E fe st1 = (Inr r', st2)"
      using estimate_from_api_total by blast
    from True r r' show ?thesis
      by (auto simp: estimate_def split: option.splits)
  qed
  from a b c d e show ?thesis by blast
qed

lemma w1: "fst (estimate_from_rpc (E_feeds (feerate_of (PFloat (1 / 1000))) (fee_of (PFloat (1 / 5000)))) rpc2 fe_dynamic init_state)
   = Inr (Some (1 / 2500))"
  by code_simp

lemma w2: "fst (estimate_from_rpc (E_feeds (feerate_of (PInt 0)) (fee_of (PFloat (1 / 5000)))) rpc2 fe_dynamic init_state)
   = Inr None"
  by code_simp

lemma w3: "fst (estimate_from_api (E_feeds (feerate_of (PInt 0)) (fee_of (PFloat (1 / 5000)))) fe_dynamic
     (snd (estimate_from_rpc (E_feeds (feerate_of (PInt 0)) (fee_of (PFloat (1 / 5000)))) rpc2 fe_dynamic init_state)))
   = Inr (Some (1 / 5000))"
  by code_simp

lemma w4: "fst (estimate_from_rpc E_down rpc2 fe_dynamic init_state) = Inr None"
  by code_simp

theorem estimate_cascade_witness:
  "estimate E_down rpc2 fe_static init_state = (Inr (1 / 10000), init_state)
   \<and> fst (estimate E_node_only rpc2 fe_dynamic init_state) = Inr (1 / 2500)
   \<and> http_gets (trace (snd (estimate E_node_only rpc2 fe_dynamic init_state))) = []
   \<and> fst (estimate E_api_only rpc2 fe_dynamic init_state) = Inr (1 / 5000)
   \<and> fst (estimate E_down rpc2 fe_dynamic init_state) = Inr (1 / 10000)"
proof -
  have s: "\<not> dynamic fe_static" and sd: "default_fee fe_static = 1 / 10000"
    by (simp_all add: fe_static_def)
  have d: "dynamic fe_dynamic" and dd: "default_fee fe_dynamic = 1 / 10000"
    by (simp_all add: fe_dynamic_def)
  from estimate_cascade [where fe = fe_static and E = E_down and cl = rpc2 and st = init_state] s sd
  have c1: "estimate E_down rpc2 fe_static init_state = (Inr (1 / 10000), init_state)"
    by simp
  have nz: "(1 / 2500 :: rat) \<noteq> 0" by simp
  have "fst (estimate_from_rpc E_node_only rpc2 fe_dynamic init_state) = Inr (Some (1 / 2500))"
    by code_simp
  then obtain sa where
    a: "estimate_from_rpc E_node_only rpc2 fe_dynamic init_state = (Inr (Some (1 / 2500)), sa)"
    by (cases "estimate_from_rpc E_node_only rpc2 fe_dynamic init_state") simp
  from estimate_cascade [where fe = fe_dynamic and E = E_node_only and cl = rpc2
      and st = init_state and f = "1 / 2500" and ?st1.0 = sa] d a nz
  have "estimate E_node_only rpc2 fe_dynamic init_state
          = (Inr (1 / 2500), log DEBUG ''Selected fee %.8f from %s'' sa)
        \<and> http_gets (trace (snd (estimate E_node_only rpc2 fe_dynamic init_state)))
          = http_gets (trace init_state)"
    by blast
  then have x: "estimate E_node_only rpc2 fe_dynamic init_state
          = (Inr (1 / 2500), log DEBUG ''Selected fee %.8f from %s'' sa)"
    and y: "http_gets (trace (snd (estimate E_node_only rpc2 fe_dynamic init_state)))
          = http_gets (trace init_state)"
    by blast+
  from x have c2: "fst (estimate E_node_only rpc2 fe_dynamic init_state) = Inr (1 / 2500)"
    by simp
  from y have c3: "http_gets (trace (snd (estimate E_node_only rpc2 fe_dynamic init_state))) = []"
    by (simp add: http_gets_def init_state_def)
  have "fst (estimate_from_rpc E_api_only rpc2 fe_dynamic init_state) = Inr None"
    by code_simp
  then obtain sb where
    b: "estimate_from_rpc E_api_only rpc2 fe_dynamic init_state = (Inr None, sb)"
    by (cases "estimate_from_rpc E_api_only rpc2 fe_dynamic init_state") simp
  have "fst (estimate_from_api E_api_only fe_dynamic
               (snd (estimate_from_rpc E_api_only rpc2 fe_dynamic init_state))) = Inr (Some (1 / 5000))"
    by code_simp
  with b obtain sc where
    b2: "estimate_from_api E_api_only fe_dynamic sb = (Inr (Some (1 / 5000)), sc)"
    by (cases "estimate_from_api E_api_only fe_dynamic sb") simp
  from estimate_cascade [where fe = fe_dynamic and E = E_api_only and cl = rpc2
      and st = init_state and f = "1 / 5000" and ?st1.0 = sb and r = None and ?st2.0 = sc] d b b2
  have c4: "fst (estimate E_api_only rpc2 fe_dynamic init_state) = Inr (1 / 5000)"
    by (simp add: falsy_def)
  have "fst (estimate_from_rpc E_down rpc2 fe_dynamic init_state) = Inr None"
    by code_simp
  then obtain se where
    e: "estimate_from_rpc E_down rpc2 fe_dynamic init_state = (Inr None, se)"
    by (cases "estimate_from_rpc E_down rpc2 fe_dynamic init_state") simp
  have "fst (estimate_from_api E_down fe_dynamic
               (snd (estimate_from_rpc E_down rpc2 fe_dynamic init_state))) = Inr None"
    by code_simp
  with e obtain sf where
    e2: "estimate_from_api E_down fe_dynamic se = (Inr None, sf)"
    by (cases "estimate_from_api E_down fe_dynamic se") simp
  from estimate_cascade [where fe = fe_dynamic and E = E_down and cl = rpc2
      and st = init_state and ?st1.0 = se and r = None and ?st2.0 = sf and r' = None] d dd e e2
  have c5: "fst (estimate E_down rpc2 fe_dynamic init_state) = Inr (1 / 10000)"
    by (simp add: falsy_def)
  from c1 c2 c3 c4 c5 show ?thesis by blast
qed

text \<open>
  C9, as stated, fails: a node that answers \<open>estimatesmartfee\<close> with the feerate -1
  makes \<open>estimate\<close> return -0.4 (the feerate times 400/1000); nothing checks the sign.
\<close>

theorem estimate_negative_counterexample:
  "fst (estimate E_negative rpc2 fe_dynamic init_state) = Inr (- (2 / 5))
   \<and> \<not> (0::rat) \<le> - (2 / 5)"
proof -
  have "fst (estimate E_negative rpc2 fe_dynamic init_state) = Inr (- (2 / 5))"
    by code_simp
  then show ?thesis by simp
qed

text \<open>
  C9, amended. The fee returned by \<open>estimate\<close> is not negative when the configured
  default and the values returned by the node source and by the external source are not
  negative. A source that returns nothing or zero makes the cascade go on with the next
  source; a zero or absent feerate in the node's answer, and a zero or absent fee field
  in the external answer, make the source return nothing.
\<close>

theorem estimate_nonneg:
  "(0 \<le> default_fee fe \<and> estimate_from_rpc E cl fe st = (r1, st1) \<and> nonneg r1
      \<and> estimate_from_api E fe st1 = (r2, st2) \<and> nonneg r2 \<longrightarrow>
      (\<exists>fee st'. estimate E cl fe st = (Inr fee, st') \<and> 0 \<le> fee))
   \<and> (dynamic fe \<and> estimate_from_rpc E cl fe st = (Inr r, st1) \<and> falsy r \<longrightarrow>
        estimate E cl fe st =
          fee_loop [estimate_from_api E fe, \<lambda>s. (Inr (Some (default_fee fe)), s)] (default_fee fe) st1)
   \<and> (call E cl ''estimatesmartfee'' [PInt 2] st = (Inr (PDict kvs), st1)
        \<and> falsy_field kvs (lit ''feerate'') \<longrightarrow>
        estimate_from_rpc E cl fe st = (Inr None, st1))
   \<and> (http_get E url [] st = (Inr (PDict kvs), st1) \<and> falsy_field kvs (fee_field fe) \<longrightarrow>
        estimate_from_api_try E fe url st = (Inr None, st1))"
proof -
  have a: "0 \<le> default_fee fe \<and> estimate_from_rpc E cl fe st = (r1, st1) \<and> nonneg r1
      \<and> estimate_from_api E fe st1 = (r2, st2) \<and> nonneg r2 \<longrightarrow>
      (\<exists>fee st'. estimate E cl fe st = (Inr fee, st') \<and> 0 \<le> fee)"
  proof
    assume h: "0 \<le> default_fee fe \<and> estimate_from_rpc E cl fe st = (r1, st1) \<and> nonneg r1
      \<and> estimate_from_api E fe st1 = (r2, st2) \<and> nonneg r2"
    from estimate_from_rpc_total [of E cl fe st] h obtain x1 where x1: "r1 = Inr x1" by auto
    from estimate_from_api_total [of E fe st1] h obtain x2 where x2: "r2 = Inr x2" by auto
    show "\<exists>fee st'. estimate E cl fe st = (Inr fee, st') \<and> 0 \<le> fee"
    proof (cases "dynamic fe")
      case False
      with h show ?thesis by (simp add: estimate_def)
    next
      case True
      with h x1 x2 show ?thesis
        by (auto simp: estimate_def nonneg_def split: option.splits)
    qed
  qed
  have b: "dynamic fe \<and> estimate_from_rpc E cl fe st = (Inr r, st1) \<and> falsy r \<longrightarrow>
        estimate E cl fe st =
          fee_loop [estimate_from_api E fe, \<lambda>s. (Inr (Some (default_fee fe)), s)] (default_fee fe) st1"
    by (auto simp: estimate_def falsy_def split: option.splits)
  have c: "call E cl ''estimatesmartfee'' [PInt 2] st = (Inr (PDict kvs), st1)
        \<and> falsy_field kvs (lit ''feerate'') \<longrightarrow>
        estimate_from_rpc E cl fe st = (Inr None, st1)"
    by (auto simp: estimate_from_rpc_def estimate_from_rpc_try_def falsy_field_def Let_def
        split: option.splits)
  have d: "http_get E url [] st = (Inr (PDict kvs), st1) \<and> falsy_field kvs (fee_field fe) \<longrightarrow>
        estimate_from_api_try E fe url st = (Inr None, st1)"
    by (auto simp: estimate_from_api_try_def falsy_field_def fee_field_def py_get_def
        split: option.splits)
  from a b c d show ?thesis by blast
qed

theorem estimate_nonneg_witness:
  "fst (estimate E_node_only rpc2 fe_dynamic init_state) = Inr (1 / 2500) \<and> (0::rat) \<le> 1 / 2500
   \<and> estimate E_zero rpc2 fe_dynamic init_state =
       fee_loop [estimate_from_api E_zero fe_dynamic, \<lambda>s. (Inr (Some (default_fee fe_dynamic)), s)]
         (default_fee fe_dynamic) (snd (estimate_from_rpc E_zero rpc2 fe_dynamic init_state))
   \<and> fst (estimate_from_rpc E_zero rpc2 fe_dynamic init_state) = Inr None
   \<and> fst (estimate_from_api_try E_zero fe_dynamic (lit ''http://fees'') init_state) = Inr None"
proof -
  have d: "dynamic fe_dynamic" and dd: "0 \<le> default_fee fe_dynamic"
    by (simp_all add: fe_dynamic_def)
  have v: "fst (estimate E_node_only rpc2 fe_dynamic init_state) = Inr (1 / 2500)"
    by code_simp
  obtain r1 s1 where a: "estimate_from_rpc E_node_only rpc2 fe_dynamic init_state = (r1, s1)"
    by (cases "estimate_from_rpc E_node_only rpc2 fe_dynamic init_state")
  have "fst (estimate_from_rpc E_node_only rpc2 fe_dynamic init_state) = Inr (Some (1 / 2500))"
    by code_simp
  with a have n1: "nonneg r1" by (simp add: nonneg_def)
  obtain r2 s2 where b: "estimate_from_api E_node_only fe_dynamic s1 = (r2, s2)"
    by (cases "estimate_from_api E_node_only fe_dynamic s1")
  have "fst (estimate_from_api E_node_only fe_dynamic
               (snd (estimate_from_rpc E_node_only rpc2 fe_dynamic init_state))) = Inr (Some (1 / 5000))"
    by code_simp
  with a b have n2: "nonneg r2" by (simp add: nonneg_def)
  from estimate_nonneg [where fe = fe_dynamic and E = E_node_only and cl = rpc2 and st = init_state
      and ?r1.0 = r1 and ?st1.0 = s1 and ?r2.0 = r2 and ?st2.0 = s2] dd a n1 b n2
  obtain fee st' where "estimate E_node_only rpc2 fe_dynamic init_state = (Inr fee, st')" and "0 \<le> fee"
    by blast
  with v have c1: "(0::rat) \<le> 1 / 2500" by simp
  have z: "fst (estimate_from_rpc E_zero rpc2 fe_dynamic init_state) = Inr None"
    by code_simp
  then obtain sz where
    z1: "estimate_from_rpc E_zero rpc2 fe_dynamic init_state = (Inr None, sz)"
    by (cases "estimate_from_rpc E_zero rpc2 fe_dynamic init_state") simp
  from estimate_nonneg [where fe = fe_dynamic and E = E_zero and cl = rpc2 and st = init_state
      and r = None and ?st1.0 = sz] d z1
  have c2: "estimate E_zero rpc2 fe_dynamic init_state =
       fee_loop [estimate_from_api E_zero fe_dynamic, \<lambda>s. (Inr (Some (default_fee fe_dynamic)), s)]
         (default_fee fe_dynamic) (snd (estimate_from_rpc E_zero rpc2 fe_dynamic init_state))"
    by (simp add: falsy_def)
  have "fst (call E_zero rpc2 ''estimatesmartfee'' [PInt 2] init_state) = Inr (feerate_of (PInt 0))"
    by code_simp
  then obtain sk where
    k: "call E_zero rpc2 ''estimatesmartfee'' [PInt 2] init_state
          = (Inr (PDict [(lit ''feerate'', PInt 0)]), sk)"
    by (cases "call E_zero rpc2 ''estimatesmartfee'' [PInt 2] init_state") (simp add: feerate_of_def)
  have ff: "falsy_field [(lit ''feerate'', PInt 0)] (lit ''feerate'')"
    by (simp add: falsy_field_def)
  from estimate_nonneg [where fe = fe_dynamic and E = E_zero and cl = rpc2 and st = init_state
      and kvs = "[(lit ''feerate'', PInt 0)]" and ?st1.0 = sk] k ff
  have c3: "fst (estimate_from_rpc E_zero rpc2 fe_dynamic init_state) = Inr None"
    by simp
  have "fst (http_get E_zero (lit ''http://fees'') [] init_state) = Inr (fee_of (PInt 0))"
    by code_simp
  then obtain sh where
    h: "http_get E_zero (lit ''http://fees'') [] init_state = (Inr (PDict [(lit ''fee'', PInt 0)]), sh)"
    by (cases "http_get E_zero (lit ''http://fees'') [] init_state") (simp add: fee_of_def)
  have fg: "falsy_field [(lit ''fee'', PInt 0)] (fee_field fe_dynamic)"
    by (simp add: falsy_field_def fee_field_def fe_dynamic_def lit_def)
  from estimate_nonneg [where fe = fe_dynamic and E = E_zero and st = init_state
      and url = "lit ''http://fees''" and kvs = "[(lit ''fee'', PInt 0)]" and ?st1.0 = sh] h fg
  have c4: "fst (estimate_from_api_try E_zero fe_dynamic (lit ''http://fees'') init_state) = Inr None"
    by simp
  from v c1 c2 c3 c4 show ?thesis by blast
qed

section \<open>Properties of the mint engine\<close>

lemma http_get_frame:
  "(\<And>u ps r. \<not> P (IO (HttpGet u ps) r)) \<Longrightarrow> http_get E url params st = (res, st1) \<Longrightarrow>
   filter P (trace st1) = filter P (trace st)"
  by (auto simp: http_get_def Let_def)

lemma estimate_from_api_frame:
  assumes h: "\<And>u ps r. \<not> P (IO (HttpGet u ps) r)" and lg: "\<And>l s. \<not> P (Log l s)"
    and e: "estimate_from_api E fe st = (res, st')"
  shows "filter P (trace st') = filter P (trace st)"
proof (cases "map_of (external_fee_api fe) (lit ''url'')")
  case None
  with e show ?thesis by (simp add: estimate_from_api_def)
next
  case (Some url)
  obtain r st1 where g: "http_get E url [] st = (r, st1)"
    by (cases "http_get E url [] st")
  from http_get_frame [of P, OF h g] have f: "filter P (trace st1) = filter P (trace st)" .
  from e Some g f show ?thesis
    by (auto simp: estimate_from_api_def estimate_from_api_try_def log_frame [of P, OF lg]
        split: sum.splits if_splits)
qed

lemma estimate_frame:
  assumes rpc: "\<And>i ps r. \<not> P (IO (RpcPost i ''estimatesmartfee'' ps) r)"
    and h: "\<And>u ps r. \<not> P (IO (HttpGet u ps) r)" and lg: "\<And>l s. \<not> P (Log l s)"
    and e: "estimate E cl fe st = (res, st')"
  shows "filter P (trace st') = filter P (trace st)"
proof (cases "dynamic fe")
  case False
  with e show ?thesis by (simp add: estimate_def)
next
  case True
  obtain r1 s1 where a: "estimate_from_rpc E cl fe st = (r1, s1)"
    by (cases "estimate_from_rpc E cl fe st")
  obtain r2 s2 where b: "estimate_from_api E fe s1 = (r2, s2)"
    by (cases "estimate_from_api E fe s1")
  from estimate_from_rpc_frame [of P, OF rpc lg a]
  have fa: "filter P (trace s1) = filter P (trace st)" .
  from estimate_from_api_frame [of P, OF h lg b]
  have fb: "filter P (trace s2) = filter P (trace s1)" .
  from e True a b fa fb show ?thesis
    by (auto simp: estimate_def log_frame [of P, OF lg] split: sum.splits option.splits if_splits)
qed

lemma scan_frame:
  assumes rpc: "\<And>i ps r. \<not> P (IO (RpcPost i ''getrawtransaction'' ps) r)"
    and lg: "\<And>l s. \<not> P (Log l s)"
  shows "scan E cl tick ids st = (b, st') \<Longrightarrow> filter P (trace st') = filter P (trace st)"
proof (induction ids arbitrary: st)
  case Nil
  then show ?case by simp
next
  case (Cons txid rest)
  obtain r s1 where c: "call E cl ''getrawtransaction'' [txid] st = (r, s1)"
    by (cases "call E cl ''getrawtransaction'' [txid] st")
  from call_frame [of P, OF rpc lg c] have f: "filter P (trace s1) = filter P (trace st)" .
  have one: "snd (scan_one E cl tick txid st) = s1"
    using c by (auto simp: scan_one_def split: sum.splits)
  show ?case
  proof (cases "fst (scan_one E cl tick txid st) = Inr True")
    case True
    with one have "scan_one E cl tick txid st = (Inr True, s1)"
      by (metis prod.collapse)
    with Cons.prems f show ?thesis by (auto simp: log_frame [of P, OF lg])
  next
    case False
    then have "scan E cl tick (txid # rest) st = scan E cl tick rest s1"
      using one by (cases "scan_one E cl tick txid st") (auto split: sum.splits bool.splits)
    with Cons.prems have "scan E cl tick rest s1 = (b, st')" by simp
    from Cons.IH [OF this] f show ?thesis by simp
  qed
qed

lemma contains_tick_frame:
  assumes r1: "\<And>i ps r. \<not> P (IO (RpcPost i ''getrawmempool'' ps) r)"
    and r2: "\<And>i ps r. \<not> P (IO (RpcPost i ''getrawtransaction'' ps) r)"
    and lg: "\<And>l s. \<not> P (Log l s)"
    and e: "contains_tick E cl ms tick st = (res, st')"
  shows "filter P (trace st') = filter P (trace st)"
proof -
  obtain r s1 where c: "call E cl ''getrawmempool'' [] st = (r, s1)"
    by (cases "call E cl ''getrawmempool'' [] st")
  from call_frame [of P, OF r1 lg c] have f: "filter P (trace s1) = filter P (trace st)" .
  show ?thesis
  proof (cases r)
    case (Inl x)
    with e c f show ?thesis by (auto simp: contains_tick_def log_frame [of P, OF lg])
  next
    case (Inr txids)
    show ?thesis
    proof (cases "iter_slice txids (max_scan ms)")
      case (Inl x)
      with e c f Inr show ?thesis by (auto simp: contains_tick_def)
    next
      case (Inr ids)
      obtain b s2 where s: "scan E cl tick ids s1 = (b, s2)" by (cases "scan E cl tick ids s1")
      from scan_frame [of P, OF r2 lg s] have "filter P (trace s2) = filter P (trace s1)" .
      with e c f \<open>r = Inr txids\<close> Inr s show ?thesis by (auto simp: contains_tick_def)
    qed
  qed
qed

lemma is_tick_live_frame:
  assumes h: "\<And>u ps r. \<not> P (IO (HttpGet u ps) r)" and lg: "\<And>l s. \<not> P (Log l s)"
    and e: "is_tick_live E tw tick st = (b, st')"
  shows "filter P (trace st') = filter P (trace st)"
proof (cases "map_of (api_cfg tw) (lit ''url'')")
  case None
  with e show ?thesis by (simp add: is_tick_live_def)
next
  case (Some url)
  obtain r st1 where g: "http_get E url [(lit ''tick'', tick)] st = (r, st1)"
    by (cases "http_get E url [(lit ''tick'', tick)] st")
  from http_get_frame [of P, OF h g] have f: "filter P (trace st1) = filter P (trace st)" .
  from e Some g f show ?thesis
    by (auto simp: is_tick_live_def is_tick_live_try_def log_frame [of P, OF lg]
        split: sum.splits if_splits)
qed

lemma should_proceed_frame:
  assumes r1: "\<And>i ps r. \<not> P (IO (RpcPost i ''getrawmempool'' ps) r)"
    and r2: "\<And>i ps r. \<not> P (IO (RpcPost i ''getrawtransaction'' ps) r)"
    and h: "\<And>u ps r. \<not> P (IO (HttpGet u ps) r)"
    and lg: "\<And>l s. \<not> P (Log l s)"
    and e: "should_proceed E eng tick st = (res, st')"
  shows "filter P (trace st') = filter P (trace st)"
proof -
  obtain live s1 where w:
    "(case ticker_watcher eng of None \<Rightarrow> (True, st) | Some tw \<Rightarrow> is_tick_live E tw tick st) = (live, s1)"
    by (cases "case ticker_watcher eng of None \<Rightarrow> (True, st) | Some tw \<Rightarrow> is_tick_live E tw tick st")
  have f1: "filter P (trace s1) = filter P (trace st)"
    using w is_tick_live_frame [of P, OF h lg] by (auto split: option.splits)
  show ?thesis
  proof (cases "live")
    case False
    with e w f1 show ?thesis by (auto simp: should_proceed_def log_frame [of P, OF lg])
  next
    case True
    show ?thesis
    proof (cases "mempool_scanner eng")
      case None
      with e w f1 True show ?thesis by (auto simp: should_proceed_def)
    next
      case (Some ms)
      obtain r s2 where c: "contains_tick E (rpc eng) ms tick s1 = (r, s2)"
        by (cases "contains_tick E (rpc eng) ms tick s1")
      from contains_tick_frame [of P, OF r1 r2 lg c]
      have "filter P (trace s2) = filter P (trace s1)" .
      with e w f1 True Some c show ?thesis
        by (auto simp: should_proceed_def log_frame [of P, OF lg] split: sum.splits if_splits)
    qed
  qed
qed

lemma is_rpc_other: "m' \<noteq> m \<Longrightarrow> \<not> is_rpc m (IO (RpcPost i m' ps) r)"
  by simp

lemma should_proceed_rpc_calls:
  "should_proceed E eng tick st = (res, st') \<Longrightarrow> m \<noteq> ''getrawmempool'' \<Longrightarrow> m \<noteq> ''getrawtransaction'' \<Longrightarrow>
   rpc_calls m (trace st') = rpc_calls m (trace st)"
  unfolding rpc_calls_def
  by (rule arg_cong [where f = length], rule should_proceed_frame [where P = "is_rpc m"]) auto

lemma estimate_rpc_calls:
  "estimate E cl fe st = (res, st') \<Longrightarrow> m \<noteq> ''estimatesmartfee'' \<Longrightarrow>
   rpc_calls m (trace st') = rpc_calls m (trace st)"
  unfolding rpc_calls_def
  by (rule arg_cong [where f = length], rule estimate_frame [where P = "is_rpc m"]) auto

lemma build_transaction_insufficient:
  "amount u - fee \<le> 0 \<Longrightarrow>
   build_transaction E u dest js fee = Inl (case lx (txid u) of Inl e \<Rightarrow> e | Inr t \<Rightarrow> insufficient)"
  by (simp add: build_transaction_def insufficient_def Let_def split: sum.splits)

lemma execute_build_fails:
  "build_transaction E u dest (json_dumps_compact (mint_payload tick amt)) fee = Inl e \<Longrightarrow>
   execute E eng u tick amt dest fee st = (Inl e, st)"
  by (simp add: execute_def)

lemma mint_loop_build_fails:
  "build_transaction E u dest (json_dumps_compact (mint_payload tick amt)) fee = Inl e \<Longrightarrow>
   mint_loop E eng u tick amt dest fee k st =
     (Inl e, st\<lparr>trace := trace st @ replicate (Suc k) (Log ERROR ''Mint attempt failed: %s'')\<rparr>)"
proof (induction k arbitrary: st)
  case 0
  then show ?case by (simp add: execute_build_fails log_def)
next
  case (Suc k)
  from Suc.prems have "mint_loop E eng u tick amt dest fee (Suc k) st =
      mint_loop E eng u tick amt dest fee k (log ERROR ''Mint attempt failed: %s'' st)"
    by (simp add: execute_build_fails)
  also have "\<dots> = (Inl e, (log ERROR ''Mint attempt failed: %s'' st)
      \<lparr>trace := trace (log ERROR ''Mint attempt failed: %s'' st)
                  @ replicate (Suc k) (Log ERROR ''Mint attempt failed: %s'')\<rparr>)"
    by (rule Suc.IH [OF Suc.prems])
  also have "\<dots> = (Inl e, st\<lparr>trace := trace st @ replicate (Suc (Suc k)) (Log ERROR ''Mint attempt failed: %s'')\<rparr>)"
    by (simp add: log_def)
  finally show ?case .
qed

lemma attempt_budget_pos: "Suc (attempt_budget eng - 1) = attempt_budget eng"
  by (simp add: attempt_budget_def)

lemma rpc_calls_append_logs:
  "rpc_calls m (tr @ Log l s # replicate n (Log l' s')) = rpc_calls m tr"
  by (induction n) (simp_all add: rpc_calls_def)

text \<open>
  C1, amended. When gating lets the tick through and the UTXO's amount minus the
  estimated fee is not positive, every attempt of \<open>mint\<close> fails while the transaction
  is built, before any request: with the insufficient-funds error when the transaction
  id is valid hex. The retryer repeats the attempt until its budget
  \<open>max(1, retry_attempts)\<close> is used up, then \<open>mint\<close> raises that error. The call adds
  one information record and one error record per attempt to the trace left by fee
  estimation, and no \<open>signrawtransaction\<close> or \<open>sendrawtransaction\<close> request.
\<close>

theorem mint_insufficient_funds:
  "should_proceed E eng tick st = (Inr True, st1)
   \<and> estimate E (rpc eng) (fee_estimator eng) st1 = (Inr fee, st2)
   \<and> amount u - fee \<le> 0 \<longrightarrow>
     mint E eng u tick amt dest st =
       (Inl (case lx (txid u) of Inl e \<Rightarrow> e | Inr t \<Rightarrow> insufficient),
        st2\<lparr>trace := trace st2
               @ Log INFO ''Minting tick=%s amount=%s via UTXO %s:%s fee=%f''
               # replicate (attempt_budget eng) (Log ERROR ''Mint attempt failed: %s'')\<rparr>)
     \<and> attempt_budget eng = nat (max 1 (retry_attempts eng))
     \<and> rpc_calls ''signrawtransaction'' (trace (snd (mint E eng u tick amt dest st)))
         = rpc_calls ''signrawtransaction'' (trace st)
     \<and> rpc_calls ''sendrawtransaction'' (trace (snd (mint E eng u tick amt dest st)))
         = rpc_calls ''sendrawtransaction'' (trace st)"
proof
  assume h: "should_proceed E eng tick st = (Inr True, st1)
   \<and> estimate E (rpc eng) (fee_estimator eng) st1 = (Inr fee, st2)
   \<and> amount u - fee \<le> 0"
  let ?e = "case lx (txid u) of Inl e \<Rightarrow> e | Inr t \<Rightarrow> insufficient"
  let ?fin = "st2\<lparr>trace := trace st2
               @ Log INFO ''Minting tick=%s amount=%s via UTXO %s:%s fee=%f''
               # replicate (attempt_budget eng) (Log ERROR ''Mint attempt failed: %s'')\<rparr>"
  from h have b: "build_transaction E u dest (json_dumps_compact (mint_payload tick amt)) fee = Inl ?e"
    by (simp add: build_transaction_insufficient)
  have ml: "mint_loop E eng u tick amt dest fee (attempt_budget eng - 1) s =
      (Inl ?e, s\<lparr>trace := trace s @ replicate (attempt_budget eng) (Log ERROR ''Mint attempt failed: %s'')\<rparr>)"
    for s
    using mint_loop_build_fails [OF b, of eng "attempt_budget eng - 1" s]
    unfolding attempt_budget_pos .
  have m: "mint E eng u tick amt dest st = (Inl ?e, ?fin)"
    using h by (simp add: mint_def ml [unfolded One_nat_def] log_def)
  have s1: "\<And>m. m \<noteq> ''getrawmempool'' \<Longrightarrow> m \<noteq> ''getrawtransaction'' \<Longrightarrow>
      rpc_calls m (trace st1) = rpc_calls m (trace st)"
    using h should_proceed_rpc_calls by blast
  have s2: "\<And>m. m \<noteq> ''estimatesmartfee'' \<Longrightarrow> rpc_calls m (trace st2) = rpc_calls m (trace st1)"
    using h estimate_rpc_calls by blast
  have fin: "\<And>m. rpc_calls m (trace ?fin) = rpc_calls m (trace st2)"
    by (simp add: rpc_calls_append_logs)
  have sign: "rpc_calls ''signrawtransaction'' (trace (snd (mint E eng u tick amt dest st)))
         = rpc_calls ''signrawtransaction'' (trace st)"
    unfolding m snd_conv fin by (simp add: s1 s2)
  have send: "rpc_calls ''sendrawtransaction'' (trace (snd (mint E eng u tick amt dest st)))
         = rpc_calls ''sendrawtransaction'' (trace st)"
    unfolding m snd_conv fin by (simp add: s1 s2)
  have ab: "attempt_budget eng = nat (max 1 (retry_attempts eng))"
    by (simp add: attempt_budget_def)
  from m ab sign send
  show "mint E eng u tick amt dest st = (Inl ?e, ?fin)
     \<and> attempt_budget eng = nat (max 1 (retry_attempts eng))
     \<and> rpc_calls ''signrawtransaction'' (trace (snd (mint E eng u tick amt dest st)))
         = rpc_calls ''signrawtransaction'' (trace st)
     \<and> rpc_calls ''sendrawtransaction'' (trace (snd (mint E eng u tick amt dest st)))
         = rpc_calls ''sendrawtransaction'' (trace st)"
    by blast
qed

text \<open>
  C1, as stated, fails: with a budget of three attempts, the amount 10 and the fee 11,
  \<open>mint\<close> makes three attempts before it raises the insufficient-funds error.
\<close>

theorem mint_retries_insufficient_counterexample:
  "amount utxo10 - 11 \<le> 0
   \<and> fst (estimate E_down rpc2 (fee_estimator eng_static) init_state) = Inr 11
   \<and> fst (mint E_down eng_static utxo10 (lit ''ZERO'') 100 (lit ''t1'') init_state) = Inl insufficient
   \<and> failed_attempts (trace (snd (mint E_down eng_static utxo10 (lit ''ZERO'') 100 (lit ''t1'') init_state))) = 3"
  by code_simp

theorem mint_insufficient_funds_witness:
  "should_proceed E_down eng_static (lit ''ZERO'') init_state = (Inr True, init_state)
   \<and> estimate E_down (rpc eng_static) (fee_estimator eng_static) init_state = (Inr 11, init_state)
   \<and> amount utxo10 - 11 \<le> 0
   \<and> mint E_down eng_static utxo10 (lit ''ZERO'') 100 (lit ''t1'') init_state =
       (Inl insufficient,
        init_state\<lparr>trace := [Log INFO ''Minting tick=%s amount=%s via UTXO %s:%s fee=%f'',
                              Log ERROR ''Mint attempt failed: %s'', Log ERROR ''Mint attempt failed: %s'',
                              Log ERROR ''Mint attempt failed: %s'']\<rparr>)
   \<and> rpc_calls ''sendrawtransaction''
        (trace (snd (mint E_down eng_static utxo10 (lit ''ZERO'') 100 (lit ''t1'') init_state))) = 0"
proof -
  have a: "should_proceed E_down eng_static (lit ''ZERO'') init_state = (Inr True, init_state)"
    by (simp add: should_proceed_def eng_static_def MintEngine_init_def)
  have b: "estimate E_down (rpc eng_static) (fee_estimator eng_static) init_state = (Inr 11, init_state)"
    by (simp add: estimate_def eng_static_def MintEngine_init_def)
  have c: "amount utxo10 - 11 \<le> 0" by (simp add: utxo10_def)
  have l: "lx (txid utxo10) = Inr [0]"
    by (simp add: lx_def utxo10_def lit_def utf8_char_def hexval_def)
  have n: "attempt_budget eng_static = 3"
    by (simp add: attempt_budget_def eng_static_def MintEngine_init_def)
  have r: "replicate 3 x = [x, x, x]" for x :: event
    by (simp add: numeral_3_eq_3)
  from mint_insufficient_funds [of E_down eng_static "lit ''ZERO''" init_state init_state 11 init_state
      utxo10 100 "lit ''t1''"] a b c
  have x: "mint E_down eng_static utxo10 (lit ''ZERO'') 100 (lit ''t1'') init_state =
       (Inl (case lx (txid utxo10) of Inl e \<Rightarrow> e | Inr t \<Rightarrow> insufficient),
        init_state\<lparr>trace := trace init_state @ Log INFO ''Minting tick=%s amount=%s via UTXO %s:%s fee=%f''
               # replicate (attempt_budget eng_static) (Log ERROR ''Mint attempt failed: %s'')\<rparr>)"
    and y: "rpc_calls ''sendrawtransaction''
        (trace (snd (mint E_down eng_static utxo10 (lit ''ZERO'') 100 (lit ''t1'') init_state)))
         = rpc_calls ''sendrawtransaction'' (trace init_state)"
    by blast+
  from x have x': "mint E_down eng_static utxo10 (lit ''ZERO'') 100 (lit ''t1'') init_state =
       (Inl insufficient,
        init_state\<lparr>trace := [Log INFO ''Minting tick=%s amount=%s via UTXO %s:%s fee=%f'',
                              Log ERROR ''Mint attempt failed: %s'', Log ERROR ''Mint attempt failed: %s'',
                              Log ERROR ''Mint attempt failed: %s'']\<rparr>)"
    unfolding l n r by (simp add: init_state_def)
  from y have y': "rpc_calls ''sendrawtransaction''
        (trace (snd (mint E_down eng_static utxo10 (lit ''ZERO'') 100 (lit ''t1'') init_state))) = 0"
    by (simp add: init_state_def rpc_calls_def)
  from a b c x' y' show ?thesis by blast
qed

lemma is_tick_live_false:
  assumes "is_tick_live E tw tick st = (False, st1)"
  shows "\<exists>url r. map_of (api_cfg tw) (lit ''url'') = Some url
           \<and> st1 = st\<lparr>trace := trace st @ [IO (HttpGet url [(lit ''tick'', tick)]) r]\<rparr>"
proof (cases "map_of (api_cfg tw) (lit ''url'')")
  case None
  with assms show ?thesis by (simp add: is_tick_live_def)
next
  case (Some url)
  with assms show ?thesis
    by (auto simp: is_tick_live_def is_tick_live_try_def http_get_def Let_def
        split: if_splits sum.splits reply.splits)
qed

lemma should_proceed_not_live:
  "ticker_watcher eng = Some tw \<Longrightarrow> is_tick_live E tw tick st = (False, st1) \<Longrightarrow>
   should_proceed E eng tick st = (Inr False, log DEBUG ''Ticker %s not yet live per API'' st1)"
  by (simp add: should_proceed_def)

lemma mint_gated:
  "should_proceed E eng tick st = (Inr False, st1) \<Longrightarrow>
   mint E eng u tick amt dest st = (Inl (gated tick), st1)"
  by (simp add: mint_def gated_def)

text \<open>
  C6. Gating comes first. When the configured ticker watcher reports the tick not live,
  \<open>mint\<close> stops there: the only interaction with the outside is the watcher's one
  HTTP request, followed by the debug record; no \<open>estimatesmartfee\<close> request, no fee
  API request and no \<open>sendrawtransaction\<close> request is made (the number of requests
  of every method is unchanged).
\<close>

theorem mint_not_live_no_calls:
  "ticker_watcher eng = Some tw \<and> is_tick_live E tw tick st = (False, st1) \<longrightarrow>
     mint E eng u tick amt dest st =
       (Inl (gated tick), log DEBUG ''Ticker %s not yet live per API'' st1)
     \<and> (\<exists>url r. map_of (api_cfg tw) (lit ''url'') = Some url
           \<and> trace (snd (mint E eng u tick amt dest st)) =
               trace st @ [IO (HttpGet url [(lit ''tick'', tick)]) r,
                           Log DEBUG ''Ticker %s not yet live per API''])
     \<and> rpc_calls ''estimatesmartfee'' (trace (snd (mint E eng u tick amt dest st)))
         = rpc_calls ''estimatesmartfee'' (trace st)
     \<and> rpc_calls ''sendrawtransaction'' (trace (snd (mint E eng u tick amt dest st)))
         = rpc_calls ''sendrawtransaction'' (trace st)
     \<and> rpc_calls m (trace (snd (mint E eng u tick amt dest st))) = rpc_calls m (trace st)"
proof
  assume h: "ticker_watcher eng = Some tw \<and> is_tick_live E tw tick st = (False, st1)"
  then have sp: "should_proceed E eng tick st
      = (Inr False, log DEBUG ''Ticker %s not yet live per API'' st1)"
    by (simp add: should_proceed_not_live)
  from mint_gated [OF sp]
  have m: "mint E eng u tick amt dest st =
       (Inl (gated tick), log DEBUG ''Ticker %s not yet live per API'' st1)" .
  from h is_tick_live_false obtain url r where
    u: "map_of (api_cfg tw) (lit ''url'') = Some url"
    and s: "st1 = st\<lparr>trace := trace st @ [IO (HttpGet url [(lit ''tick'', tick)]) r]\<rparr>"
    by blast
  have t: "trace (snd (mint E eng u tick amt dest st)) =
               trace st @ [IO (HttpGet url [(lit ''tick'', tick)]) r,
                           Log DEBUG ''Ticker %s not yet live per API'']"
    by (simp add: m s log_def)
  have c: "rpc_calls m' (trace (snd (mint E eng u tick amt dest st))) = rpc_calls m' (trace st)" for m'
    unfolding t by (simp add: rpc_calls_def)
  from m u t c
  show "mint E eng u tick amt dest st =
       (Inl (gated tick), log DEBUG ''Ticker %s not yet live per API'' st1)
     \<and> (\<exists>url r. map_of (api_cfg tw) (lit ''url'') = Some url
           \<and> trace (snd (mint E eng u tick amt dest st)) =
               trace st @ [IO (HttpGet url [(lit ''tick'', tick)]) r,
                           Log DEBUG ''Ticker %s not yet live per API''])
     \<and> rpc_calls ''estimatesmartfee'' (trace (snd (mint E eng u tick amt dest st)))
         = rpc_calls ''estimatesmartfee'' (trace st)
     \<and> rpc_calls ''sendrawtransaction'' (trace (snd (mint E eng u tick amt dest st)))
         = rpc_calls ''sendrawtransaction'' (trace st)
     \<and> rpc_calls m (trace (snd (mint E eng u tick amt dest st))) = rpc_calls m (trace st)"
    by blast
qed

theorem mint_not_live_no_calls_witness:
  "ticker_watcher eng_watch = Some watcher
   \<and> fst (is_tick_live E_not_live watcher (lit ''ZERO'') init_state) = False
   \<and> fst (mint E_not_live eng_watch utxo10 (lit ''ZERO'') 100 (lit ''t1'') init_state)
       = Inl (gated (lit ''ZERO''))
   \<and> trace (snd (mint E_not_live eng_watch utxo10 (lit ''ZERO'') 100 (lit ''t1'') init_state)) =
       [IO (HttpGet (lit ''http://ticker'') [(lit ''tick'', lit ''ZERO'')])
           (Json (PDict [(lit ''live'', PBool False)])),
        Log DEBUG ''Ticker %s not yet live per API'']
   \<and> rpc_calls ''estimatesmartfee''
        (trace (snd (mint E_not_live eng_watch utxo10 (lit ''ZERO'') 100 (lit ''t1'') init_state))) = 0
   \<and> rpc_calls ''sendrawtransaction''
        (trace (snd (mint E_not_live eng_watch utxo10 (lit ''ZERO'') 100 (lit ''t1'') init_state))) = 0"
proof -
  have w: "ticker_watcher eng_watch = Some watcher"
    by (simp add: eng_watch_def MintEngine_init_def)
  have f: "fst (is_tick_live E_not_live watcher (lit ''ZERO'') init_state) = False"
    by code_simp
  then obtain s1 where l: "is_tick_live E_not_live watcher (lit ''ZERO'') init_state = (False, s1)"
    by (cases "is_tick_live E_not_live watcher (lit ''ZERO'') init_state") simp
  have t: "trace (snd (mint E_not_live eng_watch utxo10 (lit ''ZERO'') 100 (lit ''t1'') init_state)) =
       [IO (HttpGet (lit ''http://ticker'') [(lit ''tick'', lit ''ZERO'')])
           (Json (PDict [(lit ''live'', PBool False)])),
        Log DEBUG ''Ticker %s not yet live per API'']"
    by code_simp
  from mint_not_live_no_calls [of eng_watch watcher E_not_live "lit ''ZERO''" init_state s1
      utxo10 100 "lit ''t1''"] w l
  have a: "mint E_not_live eng_watch utxo10 (lit ''ZERO'') 100 (lit ''t1'') init_state =
       (Inl (gated (lit ''ZERO'')), log DEBUG ''Ticker %s not yet live per API'' s1)"
    and b: "rpc_calls ''estimatesmartfee''
        (trace (snd (mint E_not_live eng_watch utxo10 (lit ''ZERO'') 100 (lit ''t1'') init_state)))
         = rpc_calls ''estimatesmartfee'' (trace init_state)"
    and c: "rpc_calls ''sendrawtransaction''
        (trace (snd (mint E_not_live eng_watch utxo10 (lit ''ZERO'') 100 (lit ''t1'') init_state)))
         = rpc_calls ''sendrawtransaction'' (trace init_state)"
    by blast+
  from a have a': "fst (mint E_not_live eng_watch utxo10 (lit ''ZERO'') 100 (lit ''t1'') init_state)
       = Inl (gated (lit ''ZERO''))" by simp
  from b have b': "rpc_calls ''estimatesmartfee''
        (trace (snd (mint E_not_live eng_watch utxo10 (lit ''ZERO'') 100 (lit ''t1'') init_state))) = 0"
    by (simp add: init_state_def rpc_calls_def)
  from c have c': "rpc_calls ''sendrawtransaction''
        (trace (snd (mint E_not_live eng_watch utxo10 (lit ''ZERO'') 100 (lit ''t1'') init_state))) = 0"
    by (simp add: init_state_def rpc_calls_def)
  from w f a' t b' c' show ?thesis by blast
qed

text \<open>
  C5, as stated, fails: when the watcher reports the tick ZERO not live, \<open>mint\<close>
  raises RuntimeError "Tick ZERO gated by watcher".
\<close>

theorem mint_gated_raises_counterexample:
  "fst (should_proceed E_not_live eng_watch (lit ''ZERO'') init_state) = Inr False
   \<and> fst (mint E_not_live eng_watch utxo10 (lit ''ZERO'') 100 (lit ''t1'') init_state)
       = Inl (RuntimeError (lit ''Tick ZERO gated by watcher''))"
  by code_simp

text \<open>
  C5, amended. When gating rejects the tick, \<open>mint\<close> makes no mint attempt (no
  \<open>estimatesmartfee\<close>, \<open>signrawtransaction\<close> or \<open>sendrawtransaction\<close> request)
  and raises RuntimeError "Tick <tick> gated by watcher" to its caller; the gate itself,
  \<open>_should_proceed\<close> and \<open>can_mint\<close>, returns False without raising. The gate
  rejects, after a debug record, when the watcher reports the tick not live, and, after
  an information record, when the watcher lets it through and the scanner finds it pending.
\<close>

theorem mint_gating_raises:
  "(should_proceed E eng tick st = (Inr False, st1) \<longrightarrow>
      mint E eng u tick amt dest st = (Inl (gated tick), st1)
      \<and> can_mint E eng tick st = (Inr False, st1)
      \<and> rpc_calls ''estimatesmartfee'' (trace (snd (mint E eng u tick amt dest st)))
          = rpc_calls ''estimatesmartfee'' (trace st)
      \<and> rpc_calls ''signrawtransaction'' (trace (snd (mint E eng u tick amt dest st)))
          = rpc_calls ''signrawtransaction'' (trace st)
      \<and> rpc_calls ''sendrawtransaction'' (trace (snd (mint E eng u tick amt dest st)))
          = rpc_calls ''sendrawtransaction'' (trace st))
   \<and> (ticker_watcher eng = Some tw \<and> is_tick_live E tw tick st = (False, s1) \<longrightarrow>
        should_proceed E eng tick st = (Inr False, log DEBUG ''Ticker %s not yet live per API'' s1))
   \<and> ((case ticker_watcher eng of None \<Rightarrow> (True, st) | Some tw \<Rightarrow> is_tick_live E tw tick st)
          = (True, s1)
        \<and> mempool_scanner eng = Some ms
        \<and> contains_tick E (rpc eng) ms tick s1 = (Inr True, s2) \<longrightarrow>
        should_proceed E eng tick st =
          (Inr False, log INFO ''Ticker %s already in mempool, skipping to avoid duplicates'' s2))"
proof -
  have a: "should_proceed E eng tick st = (Inr False, st1) \<longrightarrow>
      mint E eng u tick amt dest st = (Inl (gated tick), st1)
      \<and> can_mint E eng tick st = (Inr False, st1)
      \<and> rpc_calls ''estimatesmartfee'' (trace (snd (mint E eng u tick amt dest st)))
          = rpc_calls ''estimatesmartfee'' (trace st)
      \<and> rpc_calls ''signrawtransaction'' (trace (snd (mint E eng u tick amt dest st)))
          = rpc_calls ''signrawtransaction'' (trace st)
      \<and> rpc_calls ''sendrawtransaction'' (trace (snd (mint E eng u tick amt dest st)))
          = rpc_calls ''sendrawtransaction'' (trace st)"
  proof
    assume h: "should_proceed E eng tick st = (Inr False, st1)"
    from mint_gated [OF h] have m: "mint E eng u tick amt dest st = (Inl (gated tick), st1)" .
    have c: "can_mint E eng tick st = (Inr False, st1)"
      using h by (simp add: can_mint_def)
    have r: "rpc_calls ''estimatesmartfee'' (trace st1) = rpc_calls ''estimatesmartfee'' (trace st)"
      "rpc_calls ''signrawtransaction'' (trace st1) = rpc_calls ''signrawtransaction'' (trace st)"
      "rpc_calls ''sendrawtransaction'' (trace st1) = rpc_calls ''sendrawtransaction'' (trace st)"
      by (rule should_proceed_rpc_calls [OF h]; simp)+
    from m c r
    show "mint E eng u tick amt dest st = (Inl (gated tick), st1)
      \<and> can_mint E eng tick st = (Inr False, st1)
      \<and> rpc_calls ''estimatesmartfee'' (trace (snd (mint E eng u tick amt dest st)))
          = rpc_calls ''estimatesmartfee'' (trace st)
      \<and> rpc_calls ''signrawtransaction'' (trace (snd (mint E eng u tick amt dest st)))
          = rpc_calls ''signrawtransaction'' (trace st)
      \<and> rpc_calls ''sendrawtransaction'' (trace (snd (mint E eng u tick amt dest st)))
          = rpc_calls ''sendrawtransaction'' (trace st)"
      by simp
  qed
  have b: "ticker_watcher eng = Some tw \<and> is_tick_live E tw tick st = (False, s1) \<longrightarrow>
        should_proceed E eng tick st = (Inr False, log DEBUG ''Ticker %s not yet live per API'' s1)"
    by (simp add: should_proceed_not_live)
  have c: "(case ticker_watcher eng of None \<Rightarrow> (True, st) | Some tw \<Rightarrow> is_tick_live E tw tick st)
          = (True, s1)
        \<and> mempool_scanner eng = Some ms
        \<and> contains_tick E (rpc eng) ms tick s1 = (Inr True, s2) \<longrightarrow>
        should_proceed E eng tick st =
          (Inr False, log INFO ''Ticker %s already in mempool, skipping to avoid duplicates'' s2)"
    by (simp add: should_proceed_def)
  from a b c show ?thesis by blast
qed

theorem mint_gating_raises_witness:
  "fst (should_proceed E_not_live eng_watch (lit ''ZERO'') init_state) = Inr False
   \<and> fst (mint E_not_live eng_watch utxo10 (lit ''ZERO'') 100 (lit ''t1'') init_state)
       = Inl (gated (lit ''ZERO''))
   \<and> fst (can_mint E_not_live eng_watch (lit ''ZERO'') init_state) = Inr False
   \<and> fst (is_tick_live E_not_live watcher (lit ''ZERO'') init_state) = False
   \<and> fst (is_tick_live E_pending watcher (lit ''ZERO'') init_state) = True
   \<and> fst (contains_tick E_pending rpc2 \<lparr>max_scan = 100\<rparr> (lit ''ZERO'')
            (snd (is_tick_live E_pending watcher (lit ''ZERO'') init_state))) = Inr True
   \<and> fst (should_proceed E_pending eng_scan (lit ''ZERO'') init_state) = Inr False
   \<and> fst (mint E_pending eng_scan utxo10 (lit ''ZERO'') 100 (lit ''t1'') init_state)
       = Inl (gated (lit ''ZERO''))"
proof -
  have w: "ticker_watcher eng_watch = Some watcher"
    by (simp add: eng_watch_def MintEngine_init_def)
  have w2: "ticker_watcher eng_scan = Some watcher" "mempool_scanner eng_scan = Some \<lparr>max_scan = 100\<rparr>"
    "rpc eng_scan = rpc2"
    by (simp_all add: eng_scan_def MintEngine_init_def)
  have f1: "fst (should_proceed E_not_live eng_watch (lit ''ZERO'') init_state) = Inr False"
    by code_simp
  then obtain s1 where
    p1: "should_proceed E_not_live eng_watch (lit ''ZERO'') init_state = (Inr False, s1)"
    by (cases "should_proceed E_not_live eng_watch (lit ''ZERO'') init_state") simp
  from mint_gating_raises [where E = E_not_live and eng = eng_watch and tick = "lit ''ZERO''"
      and st = init_state and ?st1.0 = s1 and u = utxo10 and amt = 100 and dest = "lit ''t1''"] p1
  have "mint E_not_live eng_watch utxo10 (lit ''ZERO'') 100 (lit ''t1'') init_state
       = (Inl (gated (lit ''ZERO'')), s1)"
    and "can_mint E_not_live eng_watch (lit ''ZERO'') init_state = (Inr False, s1)"
    by blast+
  then have c1: "fst (mint E_not_live eng_watch utxo10 (lit ''ZERO'') 100 (lit ''t1'') init_state)
       = Inl (gated (lit ''ZERO''))"
    and c2: "fst (can_mint E_not_live eng_watch (lit ''ZERO'') init_state) = Inr False"
    by simp_all
  have f2: "fst (is_tick_live E_not_live watcher (lit ''ZERO'') init_state) = False"
    by code_simp
  have f3: "fst (is_tick_live E_pending watcher (lit ''ZERO'') init_state) = True"
    by code_simp
  then obtain s2 where
    l: "is_tick_live E_pending watcher (lit ''ZERO'') init_state = (True, s2)"
    by (cases "is_tick_live E_pending watcher (lit ''ZERO'') init_state") simp
  have f4: "fst (contains_tick E_pending rpc2 \<lparr>max_scan = 100\<rparr> (lit ''ZERO'')
            (snd (is_tick_live E_pending watcher (lit ''ZERO'') init_state))) = Inr True"
    by code_simp
  with l obtain s3 where
    c: "contains_tick E_pending rpc2 \<lparr>max_scan = 100\<rparr> (lit ''ZERO'') s2 = (Inr True, s3)"
    by (cases "contains_tick E_pending rpc2 \<lparr>max_scan = 100\<rparr> (lit ''ZERO'') s2") simp
  from mint_gating_raises [where E = E_pending and eng = eng_scan and tick = "lit ''ZERO''"
      and st = init_state and ?s1.0 = s2 and ms = "\<lparr>max_scan = 100\<rparr>" and ?s2.0 = s3] w2 l c
  have p2: "should_proceed E_pending eng_scan (lit ''ZERO'') init_state =
          (Inr False, log INFO ''Ticker %s already in mempool, skipping to avoid duplicates'' s3)"
    by simp
  then have c3: "fst (should_proceed E_pending eng_scan (lit ''ZERO'') init_state) = Inr False"
    by simp
  from mint_gating_raises [where E = E_pending and eng = eng_scan and tick = "lit ''ZERO''"
      and st = init_state and u = utxo10 and amt = 100 and dest = "lit ''t1''"
      and ?st1.0 = "log INFO ''Ticker %s already in mempool, skipping to avoid duplicates'' s3"] p2
  have "mint E_pending eng_scan utxo10 (lit ''ZERO'') 100 (lit ''t1'') init_state
       = (Inl (gated (lit ''ZERO'')),
          log INFO ''Ticker %s already in mempool, skipping to avoid duplicates'' s3)"
    by blast
  then have c4: "fst (mint E_pending eng_scan utxo10 (lit ''ZERO'') 100 (lit ''t1'') init_state)
       = Inl (gated (lit ''ZERO''))" by simp
  from f1 c1 c2 f2 f3 f4 c3 c4 show ?thesis by blast
qed

lemma call_loop_extends: "\<exists>new. trace (snd (call_loop E cl m ps k st)) = trace st @ new"
proof (induction k arbitrary: st)
  case 0
  show ?case
    by (auto simp: perform_request_def Let_def switch_node_def log_def split: sum.splits)
next
  case (Suc k)
  show ?case
  proof (cases "perform_request E cl m ps st")
    case (Pair r s1)
    then have e: "\<exists>n1. trace s1 = trace st @ n1"
      by (auto simp: perform_request_def Let_def split: if_splits)
    show ?thesis
    proof (cases r)
      case (Inr v)
      with Pair e show ?thesis by simp
    next
      case (Inl x)
      let ?s2 = "switch_node cl (log ERROR ''RPC error on %s: %s'' s1)"
      from e have e2: "\<exists>n2. trace ?s2 = trace st @ n2"
        by (auto simp: switch_node_def log_def)
      from Suc.IH [of ?s2] e2
      have "\<exists>n3. trace (snd (call_loop E cl m ps k ?s2)) = trace st @ n3" by auto
      with Pair Inl e2 show ?thesis by (simp add: Let_def)
    qed
  qed
qed

lemma call_first_request:
  assumes "index st < length (nodes cl)"
  shows "\<exists>r rest. trace (snd (call E cl m ps st)) = trace st @ IO (RpcPost (index st) m ps) r # rest"
proof -
  let ?r = "world E (trace st) (RpcPost (index st) m ps)"
  let ?s1 = "st\<lparr>trace := trace st @ [IO (RpcPost (index st) m ps) ?r]\<rparr>"
  have p: "perform_request E cl m ps st = (decode_rpc ?r, ?s1)"
    using assms by (simp add: perform_request_def Let_def)
  let ?s2 = "switch_node cl (log ERROR ''RPC error on %s: %s'' ?s1)"
  have t2: "\<exists>n. trace ?s2 = trace st @ IO (RpcPost (index st) m ps) ?r # n"
    by (simp add: switch_node_def log_def)
  show ?thesis
  proof (cases "decode_rpc ?r")
    case (Inr v)
    with p show ?thesis by (cases "rpc_retry_attempts cl - 1") (auto simp: call_def)
  next
    case (Inl x)
    show ?thesis
    proof (cases "rpc_retry_attempts cl - 1")
      case 0
      with p Inl t2 show ?thesis by (auto simp: call_def)
    next
      case (Suc k)
      from call_loop_extends [of E cl m ps k ?s2] t2
      have "\<exists>n. trace (snd (call_loop E cl m ps k ?s2)) = trace st @ IO (RpcPost (index st) m ps) ?r # n"
        by auto
      with p Inl Suc t2 show ?thesis by (auto simp: call_def Let_def)
    qed
  qed
qed

lemma call_index_range:
  "index st < length (nodes cl) \<Longrightarrow> index (snd (call E cl m ps st)) < length (nodes cl)"
proof -
  assume a: "index st < length (nodes cl)"
  have g: "index s < length (nodes cl) \<Longrightarrow> index (snd (call_loop E cl m ps k s)) < length (nodes cl)"
    for k s
  proof (induction k arbitrary: s)
    case 0
    then have "0 < length (nodes cl)" by auto
    then have "Suc (index s) mod length (nodes cl) < length (nodes cl)" by simp
    with 0 show ?case
      by (auto simp: perform_request_def Let_def split: sum.splits)
  next
    case (Suc k)
    then have "0 < length (nodes cl)" by auto
    then have m: "Suc (index s) mod length (nodes cl) < length (nodes cl)" by simp
    obtain r s1 where p: "perform_request E cl m ps s = (r, s1)"
      by (cases "perform_request E cl m ps s")
    then have i: "index s1 = index s" by (auto simp: perform_request_def Let_def split: if_splits)
    show ?case
    proof (cases r)
      case (Inr v)
      with p i Suc.prems show ?thesis by simp
    next
      case (Inl x)
      have "index (switch_node cl (log ERROR ''RPC error on %s: %s'' s1)) < length (nodes cl)"
        using m i by simp
      from Suc.IH [OF this] this p Inl show ?thesis by (simp add: Let_def)
    qed
  qed
  from g [OF a] show ?thesis by (simp add: call_def)
qed

text \<open>
  C10, as stated, fails: when the node answers \<open>signrawtransaction\<close> with the result
  null, the response has no \<open>hex\<close> field, \<open>signed.get\<close> raises AttributeError, every
  attempt fails and no \<open>sendrawtransaction\<close> request is made.
\<close>

theorem mint_null_sign_result_counterexample:
  "fst (call E_null_sign (rpc eng_plain) ''signrawtransaction'' [PStr (lit ''0100'')] init_state)
     = Inr PNone
   \<and> fst (execute E_null_sign eng_plain utxo1 (lit ''ZERO'') 100 (lit ''t1'') (1 / 10000) init_state)
     = Inl AttributeError
   \<and> rpc_calls ''sendrawtransaction''
        (trace (snd (execute E_null_sign eng_plain utxo1 (lit ''ZERO'') 100 (lit ''t1'') (1 / 10000)
                       init_state))) = 0
   \<and> fst (mint E_null_sign eng_plain utxo1 (lit ''ZERO'') 100 (lit ''t1'') init_state)
     = Inl AttributeError
   \<and> failed_attempts (trace (snd (mint E_null_sign eng_plain utxo1 (lit ''ZERO'') 100 (lit ''t1'')
                                     init_state))) = 3
   \<and> rpc_calls ''sendrawtransaction''
        (trace (snd (mint E_null_sign eng_plain utxo1 (lit ''ZERO'') 100 (lit ''t1'') init_state))) = 0"
  by code_simp

text \<open>
  C10, amended. In an attempt whose transaction was built, when the result of
  \<open>signrawtransaction\<close> is a JSON object without the key \<open>hex\<close>, the attempt goes
  on: its outcome is that of the \<open>sendrawtransaction\<close> call with the unsigned raw hex,
  and the next request after signing is \<open>sendrawtransaction\<close> with that hex, sent to
  the client's current node. When the result is not a JSON object, the attempt fails
  with AttributeError right after signing.
\<close>

theorem mint_unsigned_fallback:
  "(build_transaction E u dest (json_dumps_compact (mint_payload tick amt)) fee = Inr raw_hex
    \<and> call E (rpc eng) ''signrawtransaction'' [PStr raw_hex] st = (Inr (PDict kvs), st1)
    \<and> map_of kvs (lit ''hex'') = None
    \<and> index st < length (nodes (rpc eng)) \<longrightarrow>
      execute E eng u tick amt dest fee st =
        (case call E (rpc eng) ''sendrawtransaction'' [PStr raw_hex] st1 of
           (Inl e, st2) \<Rightarrow> (Inl e, st2)
         | (Inr txid_broadcast, st2) \<Rightarrow> (Inr txid_broadcast, log INFO ''Broadcasted %s'' st2))
      \<and> (\<exists>r rest. trace (snd (execute E eng u tick amt dest fee st)) =
            trace st1 @ IO (RpcPost (index st1) ''sendrawtransaction'' [PStr raw_hex]) r # rest))
   \<and> (build_transaction E u dest (json_dumps_compact (mint_payload tick amt)) fee = Inr raw_hex
       \<and> call E (rpc eng) ''signrawtransaction'' [PStr raw_hex] st = (Inr v, st1)
       \<and> \<not> is_dict v \<longrightarrow>
         execute E eng u tick amt dest fee st = (Inl AttributeError, st1))"
proof -
  have a: "build_transaction E u dest (json_dumps_compact (mint_payload tick amt)) fee = Inr raw_hex
    \<and> call E (rpc eng) ''signrawtransaction'' [PStr raw_hex] st = (Inr (PDict kvs), st1)
    \<and> map_of kvs (lit ''hex'') = None
    \<and> index st < length (nodes (rpc eng)) \<longrightarrow>
      execute E eng u tick amt dest fee st =
        (case call E (rpc eng) ''sendrawtransaction'' [PStr raw_hex] st1 of
           (Inl e, st2) \<Rightarrow> (Inl e, st2)
         | (Inr txid_broadcast, st2) \<Rightarrow> (Inr txid_broadcast, log INFO ''Broadcasted %s'' st2))
      \<and> (\<exists>r rest. trace (snd (execute E eng u tick amt dest fee st)) =
            trace st1 @ IO (RpcPost (index st1) ''sendrawtransaction'' [PStr raw_hex]) r # rest)"
  proof
    assume h: "build_transaction E u dest (json_dumps_compact (mint_payload tick amt)) fee = Inr raw_hex
     \<and> call E (rpc eng) ''signrawtransaction'' [PStr raw_hex] st = (Inr (PDict kvs), st1)
     \<and> map_of kvs (lit ''hex'') = None
     \<and> index st < length (nodes (rpc eng))"
    let ?send = "call E (rpc eng) ''sendrawtransaction'' [PStr raw_hex] st1"
    have e: "execute E eng u tick amt dest fee st =
         (case ?send of
            (Inl e, st2) \<Rightarrow> (Inl e, st2)
          | (Inr txid_broadcast, st2) \<Rightarrow> (Inr txid_broadcast, log INFO ''Broadcasted %s'' st2))"
      using h by (simp add: execute_def py_get_default_def)
    from h have "index (snd (call E (rpc eng) ''signrawtransaction'' [PStr raw_hex] st))
        < length (nodes (rpc eng))"
      by (intro call_index_range) simp
    with h have i: "index st1 < length (nodes (rpc eng))" by simp
    from call_first_request [OF i, of E "''sendrawtransaction''" "[PStr raw_hex]"]
    obtain r rest where
      t: "trace (snd ?send) = trace st1 @ IO (RpcPost (index st1) ''sendrawtransaction'' [PStr raw_hex]) r # rest"
      by blast
    have "\<exists>rest'. trace (snd (execute E eng u tick amt dest fee st)) =
             trace st1 @ IO (RpcPost (index st1) ''sendrawtransaction'' [PStr raw_hex]) r # rest'"
      unfolding e using t by (cases ?send) (auto simp: log_def split: sum.splits)
    with e show "execute E eng u tick amt dest fee st =
         (case ?send of
            (Inl e, st2) \<Rightarrow> (Inl e, st2)
          | (Inr txid_broadcast, st2) \<Rightarrow> (Inr txid_broadcast, log INFO ''Broadcasted %s'' st2))
       \<and> (\<exists>r rest. trace (snd (execute E eng u tick amt dest fee st)) =
             trace st1 @ IO (RpcPost (index st1) ''sendrawtransaction'' [PStr raw_hex]) r # rest)"
      by blast
  qed
  have b: "build_transaction E u dest (json_dumps_compact (mint_payload tick amt)) fee = Inr raw_hex
       \<and> call E (rpc eng) ''signrawtransaction'' [PStr raw_hex] st = (Inr v, st1)
       \<and> \<not> is_dict v \<longrightarrow>
         execute E eng u tick amt dest fee st = (Inl AttributeError, st1)"
    by (cases v) (simp_all add: execute_def py_get_default_def is_dict_def)
  from a b show ?thesis by blast
qed

theorem mint_unsigned_fallback_witness:
  "build_transaction E_unsigned utxo1 (lit ''t1'') (json_dumps_compact (mint_payload (lit ''ZERO'') 100))
      (1 / 10000) = Inr (lit ''0100'')
   \<and> fst (call E_unsigned (rpc eng_plain) ''signrawtransaction'' [PStr (lit ''0100'')] init_state)
       = Inr (PDict [(lit ''complete'', PBool False)])
   \<and> map_of [(lit ''complete'', PBool False)] (lit ''hex'') = None
   \<and> index init_state < length (nodes (rpc eng_plain))
   \<and> trace (snd (execute E_unsigned eng_plain utxo1 (lit ''ZERO'') 100 (lit ''t1'') (1 / 10000) init_state))
       ! 1 = IO (RpcPost 0 ''sendrawtransaction'' [PStr (lit ''0100'')])
                (Json (PDict [(lit ''result'', PStr (lit ''beef'')), (lit ''error'', PNone)]))
   \<and> fst (execute E_unsigned eng_plain utxo1 (lit ''ZERO'') 100 (lit ''t1'') (1 / 10000) init_state)
       = Inr (PStr (lit ''beef''))
   \<and> fst (call E_null_sign (rpc eng_plain) ''signrawtransaction'' [PStr (lit ''0100'')] init_state)
       = Inr PNone
   \<and> \<not> is_dict PNone
   \<and> fst (execute E_null_sign eng_plain utxo1 (lit ''ZERO'') 100 (lit ''t1'') (1 / 10000) init_state)
       = Inl AttributeError"
proof -
  have b: "build_transaction E_unsigned utxo1 (lit ''t1'') (json_dumps_compact (mint_payload (lit ''ZERO'') 100))
      (1 / 10000) = Inr (lit ''0100'')"
    by code_simp
  have s: "fst (call E_unsigned (rpc eng_plain) ''signrawtransaction'' [PStr (lit ''0100'')] init_state)
       = Inr (PDict [(lit ''complete'', PBool False)])"
    by code_simp
  then obtain s1 where s1: "call E_unsigned (rpc eng_plain) ''signrawtransaction'' [PStr (lit ''0100'')] init_state
       = (Inr (PDict [(lit ''complete'', PBool False)]), s1)"
    by (cases "call E_unsigned (rpc eng_plain) ''signrawtransaction'' [PStr (lit ''0100'')] init_state") simp
  have m: "map_of [(lit ''complete'', PBool False)] (lit ''hex'') = None"
    by (simp add: lit_def)
  have i: "index init_state < length (nodes (rpc eng_plain))"
    by (simp add: init_state_def eng_plain_def MintEngine_init_def rpc2_def nodes2_def)
  have sd: "call E_unsigned (rpc eng_plain) ''sendrawtransaction'' [PStr (lit ''0100'')]
              (snd (call E_unsigned (rpc eng_plain) ''signrawtransaction'' [PStr (lit ''0100'')] init_state))
            = (Inr (PStr (lit ''beef'')),
               \<lparr>index = 0, rr = 0, trace =
                 [IO (RpcPost 0 ''signrawtransaction'' [PStr (lit ''0100'')])
                    (Json (PDict [(lit ''result'', PDict [(lit ''complete'', PBool False)]),
                                  (lit ''error'', PNone)])),
                  IO (RpcPost 0 ''sendrawtransaction'' [PStr (lit ''0100'')])
                    (Json (PDict [(lit ''result'', PStr (lit ''beef'')), (lit ''error'', PNone)]))]\<rparr>)"
    by code_simp
  from mint_unsigned_fallback [where E = E_unsigned and u = utxo1 and dest = "lit ''t1''"
      and tick = "lit ''ZERO''" and amt = 100 and fee = "1 / 10000" and raw_hex = "lit ''0100''"
      and eng = eng_plain and st = init_state and kvs = "[(lit ''complete'', PBool False)]"
      and ?st1.0 = s1] b s1 m i
  have e: "execute E_unsigned eng_plain utxo1 (lit ''ZERO'') 100 (lit ''t1'') (1 / 10000) init_state =
       (case call E_unsigned (rpc eng_plain) ''sendrawtransaction'' [PStr (lit ''0100'')] s1 of
          (Inl e, st2) \<Rightarrow> (Inl e, st2)
        | (Inr txid_broadcast, st2) \<Rightarrow> (Inr txid_broadcast, log INFO ''Broadcasted %s'' st2))"
    by blast
  from sd s1 have sd': "call E_unsigned (rpc eng_plain) ''sendrawtransaction'' [PStr (lit ''0100'')] s1
            = (Inr (PStr (lit ''beef'')),
               \<lparr>index = 0, rr = 0, trace =
                 [IO (RpcPost 0 ''signrawtransaction'' [PStr (lit ''0100'')])
                    (Json (PDict [(lit ''result'', PDict [(lit ''complete'', PBool False)]),
                                  (lit ''error'', PNone)])),
                  IO (RpcPost 0 ''sendrawtransaction'' [PStr (lit ''0100'')])
                    (Json (PDict [(lit ''result'', PStr (lit ''beef'')), (lit ''error'', PNone)]))]\<rparr>)"
    by simp
  have t: "trace (snd (execute E_unsigned eng_plain utxo1 (lit ''ZERO'') 100 (lit ''t1'') (1 / 10000) init_state))
       ! 1 = IO (RpcPost 0 ''sendrawtransaction'' [PStr (lit ''0100'')])
                (Json (PDict [(lit ''result'', PStr (lit ''beef'')), (lit ''error'', PNone)]))"
    unfolding e sd' by (simp add: log_def)
  have f: "fst (execute E_unsigned eng_plain utxo1 (lit ''ZERO'') 100 (lit ''t1'') (1 / 10000) init_state)
       = Inr (PStr (lit ''beef''))"
    unfolding e sd' by simp
  have bn: "build_transaction E_null_sign utxo1 (lit ''t1'')
      (json_dumps_compact (mint_payload (lit ''ZERO'') 100)) (1 / 10000) = Inr (lit ''0100'')"
    by code_simp
  have n: "fst (call E_null_sign (rpc eng_plain) ''signrawtransaction'' [PStr (lit ''0100'')] init_state)
       = Inr PNone"
    by code_simp
  then obtain s2 where s2: "call E_null_sign (rpc eng_plain) ''signrawtransaction'' [PStr (lit ''0100'')]
       init_state = (Inr PNone, s2)"
    by (cases "call E_null_sign (rpc eng_plain) ''signrawtransaction'' [PStr (lit ''0100'')] init_state")
      simp
  have nd: "\<not> is_dict PNone" by (simp add: is_dict_def)
  from mint_unsigned_fallback [where E = E_null_sign and u = utxo1 and dest = "lit ''t1''"
      and tick = "lit ''ZERO''" and amt = 100 and fee = "1 / 10000" and raw_hex = "lit ''0100''"
      and eng = eng_plain and st = init_state and v = PNone and ?st1.0 = s2] bn s2 nd
  have "execute E_null_sign eng_plain utxo1 (lit ''ZERO'') 100 (lit ''t1'') (1 / 10000) init_state
      = (Inl AttributeError, s2)"
    by blast
  then have g: "fst (execute E_null_sign eng_plain utxo1 (lit ''ZERO'') 100 (lit ''t1'') (1 / 10000)
      init_state) = Inl AttributeError"
    by simp
  from b s m i t f n nd g show ?thesis by blast
qed

section \<open>The mempool scan and the wallet selector at concrete inputs\<close>

text \<open>
  C7 at a concrete input. The scan lower-cases the tick and the hex text of the
  transaction, not the decoded bytes. The mempool holds the script that the engine itself
  writes for the tick ZERO, whose bytes contain \<open>ZERO\<close>: the scan reports no hit for
  the tick \<open>ZERO\<close>, nor for \<open>zero\<close>. It reports a hit when the bytes contain the
  lower-case \<open>zero\<close>.
\<close>

theorem contains_tick_misses_upper_case:
  "own_mint_hex = lit ''036f7264116170706c69636174696f6e2f6a736f6e007b2270223a227a72632d3230222c226f70223a226d696e74222c227469636b223a225a45524f222c22616d74223a22313030227d''
   \<and> map_option (bytes_contains (blit ''ZERO'')) (fromhex own_mint_hex) = Some True
   \<and> fst (contains_tick E_own_mint rpc2 \<lparr>max_scan = 100\<rparr> (lit ''ZERO'') init_state) = Inr False
   \<and> fst (contains_tick E_own_mint rpc2 \<lparr>max_scan = 100\<rparr> (lit ''zero'') init_state) = Inr False
   \<and> fst (contains_tick E_pending rpc2 \<lparr>max_scan = 100\<rparr> (lit ''ZERO'') init_state) = Inr True"
  by code_simp

text \<open>
  C8 at a concrete input. With two wallets and the strategy \<open>richest\<close>, \<open>pick\<close>
  raises AttributeError: \<open>MultiWallet\<close> has no method \<open>richest\<close>. Its method
  \<open>richest_wallet\<close> returns the second wallet, whose balance 5 is the largest.
\<close>

theorem pick_richest_attribute_error:
  "pick E_balances rpc2 sel_richest 1 init_state = (Inl AttributeError, init_state)
   \<and> MultiWallet_method ''richest'' = None
   \<and> MultiWallet_method ''richest_wallet'' = Some Richest_wallet
   \<and> fst (balance E_balances rpc2 wallet_a 1 init_state) = Inr 1
   \<and> fst (balance E_balances rpc2 wallet_b 1 init_state) = Inr 5
   \<and> fst (richest_wallet E_balances rpc2 (wallets sel_richest) 1 init_state) = Inr wallet_b"
  by code_simp

lemma pick_richest_always_raises:
  "1 < length (wallets sel) \<Longrightarrow> strategy sel = lit ''richest'' \<Longrightarrow>
   pick E cl sel min_conf st = (Inl AttributeError, st)"
  by (simp add: pick_def MultiWallet_method_def)

end
